theory Spec2Isabelle
  imports Complex_Main "HOL-Library.Log_Nat"
begin

section \<open>Values of the Python program\<close>

text \<open>
  \<^verbatim>\<open>bot5.py\<close> handles values decoded from JSON (\<^verbatim>\<open>json.loads\<close>, \<^verbatim>\<open>json.load\<close>):
  \<^verbatim>\<open>None\<close>, booleans, integers, floats, strings, lists and dictionaries with string
  keys. A dictionary is an association list in insertion order with distinct keys; a
  float is the rational it denotes (the literals \<^verbatim>\<open>NaN\<close> and \<^verbatim>\<open>Infinity\<close>, which
  \<^verbatim>\<open>json.loads\<close> accepts beyond JSON, are left out).
\<close>

datatype json =
    JNull
  | JBool bool
  | JInt int
  | JFloat rat
  | JStr string
  | JArr "json list"
  | JObj "(string \<times> json) list"

text \<open>The exceptions the modelled statements can raise; \<open>HistoryNotFoundError\<close> is the
  kind the specification names for a job id missing from the history, and no statement
  of \<^verbatim>\<open>bot5.py\<close> raises it. \<open>ConnectionResetError\<close>, \<open>URLError\<close>,
  \<open>RequestException\<close> and \<open>ClientResponseError\<close> come from the network only.\<close>

datatype error =
    KeyError
  | TypeError
  | IndexError
  | AttributeError
  | UnboundLocalError
  | ZeroDivisionError
  | OverflowError
  | JSONDecodeError
  | UnicodeDecodeError
  | FileNotFoundError
  | ConnectionClosed
  | ConnectionResetError
  | URLError
  | RequestException
  | ClientResponseError
  | HistoryNotFoundError

text \<open>Byte or text content on the wire. \<^verbatim>\<open>json.dumps\<close> and \<^verbatim>\<open>json.loads\<close> are library
  functions; they are modelled symbolically: \<open>Dumps v\<close> is the serialisation of \<open>v\<close>,
  \<open>Raw s\<close> is other content that is text but not a JSON document, and \<open>Binary s\<close> is
  content that is not text at all (bytes that are not UTF-8, as those of a PNG file).
  Decoding the second raises \<^verbatim>\<open>JSONDecodeError\<close>, decoding the third
  \<^verbatim>\<open>UnicodeDecodeError\<close>.\<close>

datatype payload = Dumps json | Raw string | Binary string

definition json_dumps :: "json \<Rightarrow> payload" where
  "json_dumps v = Dumps v"

fun json_loads :: "payload \<Rightarrow> error + json" where
  "json_loads (Dumps v) = Inr v"
| "json_loads (Raw s) = Inl JSONDecodeError"
| "json_loads (Binary s) = Inl UnicodeDecodeError"

subsection \<open>Python's operators on decoded JSON\<close>

text \<open>\<^verbatim>\<open>xs[i]\<close> on a sequence: a negative index counts from the end, an index out of
  range raises \<^verbatim>\<open>IndexError\<close>.\<close>

definition py_index :: "'a list \<Rightarrow> int \<Rightarrow> error + 'a" where
  "py_index xs i =
     (if 0 \<le> i \<and> i < int (length xs) then Inr (xs ! nat i)
      else if i < 0 \<and> - int (length xs) \<le> i then Inr (xs ! nat (int (length xs) + i))
      else Inl IndexError)"

text \<open>\<^verbatim>\<open>obj[key]\<close>. A dictionary decoded from JSON has string keys only, so a hashable
  key of another type is missing (\<^verbatim>\<open>KeyError\<close>) and a list or dictionary as key is
  unhashable (\<^verbatim>\<open>TypeError\<close>). A list or string takes an integer index (\<^verbatim>\<open>True\<close> is 1,
  \<^verbatim>\<open>False\<close> is 0); the other values are not subscriptable.\<close>

fun getitem :: "json \<Rightarrow> json \<Rightarrow> error + json" where
  "getitem (JObj kvs) (JStr k) = (case map_of kvs k of None \<Rightarrow> Inl KeyError | Some v \<Rightarrow> Inr v)"
| "getitem (JObj kvs) (JArr ks) = Inl TypeError"
| "getitem (JObj kvs) (JObj ks) = Inl TypeError"
| "getitem (JObj kvs) k = Inl KeyError"
| "getitem (JArr xs) (JInt i) = py_index xs i"
| "getitem (JArr xs) (JBool b) = py_index xs (if b then 1 else 0)"
| "getitem (JArr xs) k = Inl TypeError"
| "getitem (JStr s) (JInt i) = map_sum id (\<lambda>c. JStr [c]) (py_index s i)"
| "getitem (JStr s) (JBool b) = map_sum id (\<lambda>c. JStr [c]) (py_index s (if b then 1 else 0))"
| "getitem (JStr s) k = Inl TypeError"
| "getitem obj k = Inl TypeError"

text \<open>\<^verbatim>\<open>d[k] = v\<close> on a dictionary keeps the position of a key that is present and
  appends a new one.\<close>

fun dict_set :: "'k \<Rightarrow> 'v \<Rightarrow> ('k \<times> 'v) list \<Rightarrow> ('k \<times> 'v) list" where
  "dict_set k v [] = [(k, v)]"
| "dict_set k v ((k', v') # kvs) =
     (if k' = k then (k', v) # kvs else (k', v') # dict_set k v kvs)"

text \<open>\<^verbatim>\<open>obj[key] = v\<close> with a string key: only a dictionary accepts it.\<close>

fun setitem :: "json \<Rightarrow> string \<Rightarrow> json \<Rightarrow> error + json" where
  "setitem (JObj kvs) k v = Inr (JObj (dict_set k v kvs))"
| "setitem obj k v = Inl TypeError"

text \<open>Iteration (\<^verbatim>\<open>for x in obj\<close>): the keys of a dictionary, the elements of a list, the
  characters of a string.\<close>

fun py_iter :: "json \<Rightarrow> error + json list" where
  "py_iter (JObj kvs) = Inr (map (\<lambda>kv. JStr (fst kv)) kvs)"
| "py_iter (JArr xs) = Inr xs"
| "py_iter (JStr s) = Inr (map (\<lambda>c. JStr [c]) s)"
| "py_iter obj = Inl TypeError"

definition is_substring :: "string \<Rightarrow> string \<Rightarrow> bool" where
  "is_substring n s = list_ex (\<lambda>i. take (length n) (drop i s) = n) [0..<Suc (length s)]"

text \<open>\<^verbatim>\<open>'name' in obj\<close>: a key of a dictionary, an element of a list, a substring of a
  string.\<close>

fun py_contains_str :: "string \<Rightarrow> json \<Rightarrow> error + bool" where
  "py_contains_str n (JObj kvs) = Inr (list_ex (\<lambda>kv. fst kv = n) kvs)"
| "py_contains_str n (JArr xs) = Inr (list_ex (\<lambda>x. x = JStr n) xs)"
| "py_contains_str n (JStr s) = Inr (is_substring n s)"
| "py_contains_str n obj = Inl TypeError"

text \<open>\<^verbatim>\<open>a == b\<close>: numbers compare by value (\<^verbatim>\<open>True == 1\<close>, \<^verbatim>\<open>1 == 1.0\<close>), lists
  elementwise, dictionaries regardless of order.\<close>

fun num_of :: "json \<Rightarrow> rat option" where
  "num_of (JBool b) = Some (if b then 1 else 0)"
| "num_of (JInt i) = Some (of_int i)"
| "num_of (JFloat r) = Some r"
| "num_of v = None"

function py_eq :: "json \<Rightarrow> json \<Rightarrow> bool"
  and py_eq_list :: "json list \<Rightarrow> json list \<Rightarrow> bool"
  and py_eq_items :: "(string \<times> json) list \<Rightarrow> (string \<times> json) list \<Rightarrow> bool" where
  "py_eq (JArr xs) b = (case b of JArr ys \<Rightarrow> py_eq_list xs ys | _ \<Rightarrow> False)"
| "py_eq (JObj m) b =
     (case b of JObj n \<Rightarrow> length m = length n \<and> py_eq_items m n | _ \<Rightarrow> False)"
| "py_eq (JStr s) b = (case b of JStr t \<Rightarrow> s = t | _ \<Rightarrow> False)"
| "py_eq JNull b = (b = JNull)"
| "py_eq (JBool x) b = (num_of b = Some (if x then 1 else 0))"
| "py_eq (JInt i) b = (num_of b = Some (of_int i))"
| "py_eq (JFloat r) b = (num_of b = Some r)"
| "py_eq_list [] ys = (ys = [])"
| "py_eq_list (x # xs) ys =
     (case ys of [] \<Rightarrow> False | y # ys' \<Rightarrow> py_eq x y \<and> py_eq_list xs ys')"
| "py_eq_items [] n = True"
| "py_eq_items (kv # m) n =
     ((case map_of n (fst kv) of None \<Rightarrow> False | Some w \<Rightarrow> py_eq (snd kv) w)
      \<and> py_eq_items m n)"
  by pat_completeness auto
termination
  by (relation "measure (\<lambda>x. case x of
        Inl (a, b) \<Rightarrow> 2 * size a
      | Inr (Inl (xs, ys)) \<Rightarrow> 2 * size_list size xs + 1
      | Inr (Inr (m, n)) \<Rightarrow> 2 * size_list (\<lambda>kv. Suc (size (snd kv))) m + 1)")
    (auto simp: size_prod_simp)


section \<open>The backend and the effects of the program\<close>

text \<open>The HTTP requests of \<^verbatim>\<open>bot5.py\<close> to the image backend, each named by the
  arguments of its URL:
  \<^item> \<open>PostPrompt body\<close>: \<^verbatim>\<open>POST http://192.168.8.219:8188/prompt\<close> with that body;
  \<^item> \<open>GetHistory prompt_id\<close>: \<^verbatim>\<open>GET http://192.168.8.219:8188/history/<prompt_id>\<close>;
  \<^item> \<open>GetView filename subfolder type\<close>:
    \<^verbatim>\<open>GET http://192.168.8.219:8188/view?filename=..&subfolder=..&type=..\<close>.\<close>

datatype request =
    PostPrompt payload
  | GetHistory json
  | GetView json json json

text \<open>A WebSocket frame as \<^verbatim>\<open>ws.recv()\<close> returns it: a \<^verbatim>\<open>str\<close> for a text frame,
  \<^verbatim>\<open>bytes\<close> for a binary one.\<close>

datatype frame = TextFrame payload | BinaryFrame payload

text \<open>What the program does to the outside, in the order it does it.\<close>

datatype event =
    Http request
  | WsConnect string
  | WsSend payload
  | WsRecv
  | Download string
  | OllamaChat json

text \<open>An attachment after lines 166-172 and 186 of \<^verbatim>\<open>i2i\<close> (the same in \<^verbatim>\<open>des\<close>):
  downloaded, decoded by PIL, saved as PNG and base64-encoded. These are library calls;
  their result is what the program computes with.\<close>

record source_image =
  width_org :: int
  height_org :: int
  image_base64 :: string

text \<open>The outside of the program: what the backend answers to a request, the frames
  the backend sends on a WebSocket opened at a URL (the connection closes after the last
  one), the content of the workflow files, the attachment behind a URL, and the answer
  of the Ollama service to a chat request (any failure there is a
  \<^verbatim>\<open>RequestException\<close>).\<close>

record env =
  http_response :: "request \<Rightarrow> error + payload"
  ws_frames :: "string \<Rightarrow> error + frame list"
  file_content :: "string \<Rightarrow> error + payload"
  attachment :: "string \<Rightarrow> error + source_image"
  ollama_response :: "json \<Rightarrow> error + payload"

definition server_address :: string where
  "server_address = ''192.168.8.219:8188''"

section \<open>The backend protocol (bot5.py, lines 305-350)\<close>

text \<open>The module-level \<^verbatim>\<open>client_id\<close> (line 24) is a parameter of every function that
  reads it. A function with effects takes the trace of events so far and returns its
  result with the extended trace.\<close>

definition queue_prompt ::
  "env \<Rightarrow> string \<Rightarrow> json \<Rightarrow> event list \<Rightarrow> (error + json) \<times> event list" where
  "queue_prompt ev client_id prompt tr =
     (let p = JObj [(''prompt'', prompt), (''client_id'', JStr client_id)];
          data = json_dumps p;
          req = PostPrompt data
      in case http_response ev req of
           Inl e \<Rightarrow> (Inl e, tr @ [Http req])
         | Inr body \<Rightarrow> (json_loads body, tr @ [Http req]))"

definition get_image ::
  "env \<Rightarrow> json \<Rightarrow> json \<Rightarrow> json \<Rightarrow> event list \<Rightarrow> (error + payload) \<times> event list" where
  "get_image ev filename subfolder folder_type tr =
     (let req = GetView filename subfolder folder_type
      in (http_response ev req, tr @ [Http req]))"

definition get_history ::
  "env \<Rightarrow> json \<Rightarrow> event list \<Rightarrow> (error + json) \<times> event list" where
  "get_history ev prompt_id tr =
     (let req = GetHistory prompt_id
      in case http_response ev req of
           Inl e \<Rightarrow> (Inl e, tr @ [Http req])
         | Inr body \<Rightarrow> (json_loads body, tr @ [Http req]))"

text \<open>Lines 324-333 of \<^verbatim>\<open>get_images\<close>: the receive loop. It returns the frames left
  unread when it breaks; reading past the last frame is \<open>ConnectionClosed\<close>.\<close>

fun recv_loop ::
  "json \<Rightarrow> frame list \<Rightarrow> event list \<Rightarrow> (error + frame list) \<times> event list" where
  "recv_loop prompt_id [] tr = (Inl ConnectionClosed, tr @ [WsRecv])"
| "recv_loop prompt_id (BinaryFrame b # rest) tr = recv_loop prompt_id rest (tr @ [WsRecv])"
| "recv_loop prompt_id (TextFrame out # rest) tr =
     (case json_loads out of
        Inl e \<Rightarrow> (Inl e, tr @ [WsRecv])
      | Inr message \<Rightarrow>
          (case getitem message (JStr ''type'') of
             Inl e \<Rightarrow> (Inl e, tr @ [WsRecv])
           | Inr ty \<Rightarrow>
               if py_eq ty (JStr ''executing'') then
                 (case getitem message (JStr ''data'') of
                    Inl e \<Rightarrow> (Inl e, tr @ [WsRecv])
                  | Inr data \<Rightarrow>
                      (case getitem data (JStr ''node'') of
                         Inl e \<Rightarrow> (Inl e, tr @ [WsRecv])
                       | Inr node \<Rightarrow>
                           if node = JNull then
                             (case getitem data (JStr ''prompt_id'') of
                                Inl e \<Rightarrow> (Inl e, tr @ [WsRecv])
                              | Inr p \<Rightarrow>
                                  if py_eq p prompt_id then (Inr rest, tr @ [WsRecv])
                                  else recv_loop prompt_id rest (tr @ [WsRecv]))
                           else recv_loop prompt_id rest (tr @ [WsRecv])))
               else recv_loop prompt_id rest (tr @ [WsRecv])))"

text \<open>Lines 341-343: the loop over the image descriptors of one node.\<close>

fun image_loop ::
  "env \<Rightarrow> json list \<Rightarrow> payload list \<Rightarrow> event list \<Rightarrow> (error + payload list) \<times> event list"
  where
  "image_loop ev [] images_output tr = (Inr images_output, tr)"
| "image_loop ev (descriptor # rest) images_output tr =
     (case getitem descriptor (JStr ''filename'') of
        Inl e \<Rightarrow> (Inl e, tr)
      | Inr filename \<Rightarrow>
          (case getitem descriptor (JStr ''subfolder'') of
             Inl e \<Rightarrow> (Inl e, tr)
           | Inr subfolder \<Rightarrow>
               (case getitem descriptor (JStr ''type'') of
                  Inl e \<Rightarrow> (Inl e, tr)
                | Inr folder_type \<Rightarrow>
                    (case get_image ev filename subfolder folder_type tr of
                       (Inl e, tr') \<Rightarrow> (Inl e, tr')
                     | (Inr image_data, tr') \<Rightarrow>
                         image_loop ev rest (images_output @ [image_data]) tr'))))"

text \<open>The local variables the loops of lines 336-344 update: \<^verbatim>\<open>images_output\<close>, which
  is unbound (\<open>None\<close>) until a node with an \<^verbatim>\<open>images\<close> entry assigns it, and the
  dictionary \<^verbatim>\<open>output_images\<close>.\<close>

type_synonym locals = "payload list option \<times> (json \<times> payload list) list"

text \<open>Lines 338-343, the body of the inner loop up to the end of its \<^verbatim>\<open>if\<close>: the value
  of \<^verbatim>\<open>images_output\<close> afterwards. A node with an \<^verbatim>\<open>images\<close> entry assigns the variable
  the bytes fetched for it; a node without one leaves the variable as it was.\<close>

definition node_images ::
  "env \<Rightarrow> json \<Rightarrow> json \<Rightarrow> payload list option \<Rightarrow> event list
     \<Rightarrow> (error + payload list option) \<times> event list" where
  "node_images ev history node_id images_output tr =
     (case getitem history (JStr ''outputs'') of
        Inl e \<Rightarrow> (Inl e, tr)
      | Inr outputs \<Rightarrow>
          (case getitem outputs node_id of
             Inl e \<Rightarrow> (Inl e, tr)
           | Inr node_output \<Rightarrow>
               (case py_contains_str ''images'' node_output of
                  Inl e \<Rightarrow> (Inl e, tr)
                | Inr has_images \<Rightarrow>
                    if has_images then
                      (case getitem node_output (JStr ''images'') of
                         Inl e \<Rightarrow> (Inl e, tr)
                       | Inr images \<Rightarrow>
                           (case py_iter images of
                              Inl e \<Rightarrow> (Inl e, tr)
                            | Inr descriptors \<Rightarrow>
                                (case image_loop ev descriptors [] tr of
                                   (Inl e, tr') \<Rightarrow> (Inl e, tr')
                                 | (Inr fetched, tr') \<Rightarrow> (Inr (Some fetched), tr'))))
                    else (Inr images_output, tr))))"

text \<open>Lines 338-344, the whole body. The assignment of line 344 stands outside the
  \<^verbatim>\<open>if\<close> of line 339: it reads \<^verbatim>\<open>images_output\<close> whether or not the node has images,
  and raises \<^verbatim>\<open>UnboundLocalError\<close> while the variable is unbound.\<close>

definition node_body ::
  "env \<Rightarrow> json \<Rightarrow> json \<Rightarrow> locals \<Rightarrow> event list \<Rightarrow> (error + locals) \<times> event list" where
  "node_body ev history node_id st tr =
     (case node_images ev history node_id (fst st) tr of
        (Inl e, tr') \<Rightarrow> (Inl e, tr')
      | (Inr None, tr') \<Rightarrow> (Inl UnboundLocalError, tr')
      | (Inr (Some images_output), tr') \<Rightarrow>
          (Inr (Some images_output, dict_set node_id images_output (snd st)), tr'))"

text \<open>Lines 337-344: the loop over the node ids.\<close>

fun node_loop ::
  "env \<Rightarrow> json \<Rightarrow> json list \<Rightarrow> locals \<Rightarrow> event list \<Rightarrow> (error + locals) \<times> event list" where
  "node_loop ev history [] st tr = (Inr st, tr)"
| "node_loop ev history (node_id # rest) st tr =
     (case node_body ev history node_id st tr of
        (Inl e, tr') \<Rightarrow> (Inl e, tr')
      | (Inr st', tr') \<Rightarrow> node_loop ev history rest st' tr')"

text \<open>Line 337 on its own: one run of the inner \<^verbatim>\<open>for\<close> statement, which evaluates
  \<^verbatim>\<open>history['outputs']\<close> and iterates over it.\<close>

definition inner_for ::
  "env \<Rightarrow> json \<Rightarrow> locals \<Rightarrow> event list \<Rightarrow> (error + locals) \<times> event list" where
  "inner_for ev history st tr =
     (case getitem history (JStr ''outputs'') of
        Inl e \<Rightarrow> (Inl e, tr)
      | Inr outputs \<Rightarrow>
          (case py_iter outputs of
             Inl e \<Rightarrow> (Inl e, tr)
           | Inr node_ids \<Rightarrow> node_loop ev history node_ids st tr))"

text \<open>Line 336: the outer loop, whose variable \<^verbatim>\<open>o\<close> the body does not read.\<close>

fun outer_loop ::
  "env \<Rightarrow> json \<Rightarrow> json list \<Rightarrow> locals \<Rightarrow> event list \<Rightarrow> (error + locals) \<times> event list" where
  "outer_loop ev history [] st tr = (Inr st, tr)"
| "outer_loop ev history (ob # rest) st tr =
     (case inner_for ev history st tr of
        (Inl e, tr') \<Rightarrow> (Inl e, tr')
      | (Inr st', tr') \<Rightarrow> outer_loop ev history rest st' tr')"

text \<open>Lines 335-346: from the history lookup to the returned dictionary.\<close>

definition collect_outputs ::
  "env \<Rightarrow> json \<Rightarrow> event list \<Rightarrow> (error + (json \<times> payload list) list) \<times> event list" where
  "collect_outputs ev prompt_id tr =
     (case get_history ev prompt_id tr of
        (Inl e, tr') \<Rightarrow> (Inl e, tr')
      | (Inr response, tr') \<Rightarrow>
          (case getitem response prompt_id of
             Inl e \<Rightarrow> (Inl e, tr')
           | Inr history \<Rightarrow>
               (case getitem history (JStr ''outputs'') of
                  Inl e \<Rightarrow> (Inl e, tr')
                | Inr outputs \<Rightarrow>
                    (case py_iter outputs of
                       Inl e \<Rightarrow> (Inl e, tr')
                     | Inr obs \<Rightarrow>
                         (case outer_loop ev history obs (None, []) tr' of
                            (Inl e, tr'') \<Rightarrow> (Inl e, tr'')
                          | (Inr st, tr'') \<Rightarrow> (Inr (snd st), tr''))))))"

text \<open>Line 322: the submission and the extraction of the job id.\<close>

definition submit ::
  "env \<Rightarrow> string \<Rightarrow> json \<Rightarrow> event list \<Rightarrow> (error + json) \<times> event list" where
  "submit ev client_id prompt tr =
     (case queue_prompt ev client_id prompt tr of
        (Inl e, tr') \<Rightarrow> (Inl e, tr')
      | (Inr response, tr') \<Rightarrow> (getitem response (JStr ''prompt_id''), tr'))"

definition get_images ::
  "env \<Rightarrow> string \<Rightarrow> frame list \<Rightarrow> json \<Rightarrow> event list
     \<Rightarrow> (error + (json \<times> payload list) list) \<times> event list" where
  "get_images ev client_id ws prompt tr =
     (case submit ev client_id prompt tr of
        (Inl e, tr1) \<Rightarrow> (Inl e, tr1)
      | (Inr prompt_id, tr1) \<Rightarrow>
          (case recv_loop prompt_id ws tr1 of
             (Inl e, tr2) \<Rightarrow> (Inl e, tr2)
           | (Inr unread, tr2) \<Rightarrow> collect_outputs ev prompt_id tr2))"


text \<open>The f-string of lines 108, 208, 263 and 353.\<close>

definition ws_uri :: "string \<Rightarrow> string \<Rightarrow> string" where
  "ws_uri address cid = ''ws://'' @ address @ ''/ws?clientId='' @ cid"

definition load_prompt :: "env \<Rightarrow> string \<Rightarrow> error + json" where
  "load_prompt ev filename =
     (case file_content ev filename of Inl e \<Rightarrow> Inl e | Inr body \<Rightarrow> json_loads body)"

text \<open>Lines 110-114 (the same at 210-214 and 354-359): the WebSocket session. The URL
  is built by the caller; \<^verbatim>\<open>get_images\<close> reads the module-level \<^verbatim>\<open>client_id\<close>.\<close>

definition ws_session ::
  "env \<Rightarrow> string \<Rightarrow> string \<Rightarrow> json \<Rightarrow> event list
     \<Rightarrow> (error + (json \<times> payload list) list) \<times> event list" where
  "ws_session ev client_id uri prompt tr =
     (case ws_frames ev uri of
        Inl e \<Rightarrow> (Inl e, tr @ [WsConnect uri])
      | Inr ws \<Rightarrow>
          get_images ev client_id ws prompt
            (tr @ [WsConnect uri, WsSend (json_dumps prompt)]))"

text \<open>Lines 352-359; the first argument after the environment is the module-level
  \<^verbatim>\<open>client_id\<close>, the next two are the function's own parameters.\<close>

definition process_images ::
  "env \<Rightarrow> string \<Rightarrow> string \<Rightarrow> string \<Rightarrow> json \<Rightarrow> event list
     \<Rightarrow> (error + (json \<times> payload list) list) \<times> event list" where
  "process_images ev client_id server_address' client_id' prompt tr =
     ws_session ev client_id (ws_uri server_address' client_id') prompt tr"

section \<open>The commands (bot5.py, lines 57-283)\<close>

text \<open>\<^verbatim>\<open>prompt[node]["inputs"][name] = v\<close>. The workflow is freshly decoded, so no two
  of its dictionaries are the same object, and the assignment changes that one entry.\<close>

definition set_input :: "json \<Rightarrow> string \<Rightarrow> string \<Rightarrow> json \<Rightarrow> error + json" where
  "set_input prompt node name v =
     (case getitem prompt (JStr node) of
        Inl e \<Rightarrow> Inl e
      | Inr node_def \<Rightarrow>
          (case getitem node_def (JStr ''inputs'') of
             Inl e \<Rightarrow> Inl e
           | Inr inputs \<Rightarrow>
               (case setitem inputs name v of
                  Inl e \<Rightarrow> Inl e
                | Inr inputs' \<Rightarrow>
                    (case setitem node_def ''inputs'' inputs' of
                       Inl e \<Rightarrow> Inl e
                     | Inr node_def' \<Rightarrow> setitem prompt node node_def'))))"

text \<open>What a command hands to \<^verbatim>\<open>ctx.send\<close>: the images of \<^verbatim>\<open>get_images\<close> (decoding
  them with PIL and uploading them, lines 115-127, is outside the model), a serialised
  or a plain value, or a fixed message.\<close>

datatype reply =
    Generated "(json \<times> payload list) list"
  | Sent payload
  | SentValue json
  | Said string

definition error_message :: string where
  "error_message = ''An error occurred while processing your request. Please try again later.''"

definition unexpected_message :: string where
  "unexpected_message = ''An unexpected error occurred. Please try again later.''"

text \<open>The \<^verbatim>\<open>except\<close> clauses of \<^verbatim>\<open>img\<close> and \<^verbatim>\<open>des\<close> (lines 128-133, 278-283) and of
  \<^verbatim>\<open>i2i\<close> (lines 229-237).\<close>

fun img_except :: "error \<Rightarrow> reply" where
  "img_except ConnectionResetError = Said error_message"
| "img_except e = Said unexpected_message"

fun i2i_except :: "error \<Rightarrow> reply" where
  "i2i_except ClientResponseError = Said error_message"
| "i2i_except ConnectionResetError = Said error_message"
| "i2i_except e = Said unexpected_message"

text \<open>Lines 89-96 of \<^verbatim>\<open>img\<close>; \<open>width\<close> and \<open>height\<close> are Python values, \<open>JNull\<close> being
  \<^verbatim>\<open>None\<close>.\<close>

definition img_prompt :: "env \<Rightarrow> string \<Rightarrow> json \<Rightarrow> json \<Rightarrow> error + json" where
  "img_prompt ev text' width height =
     (case load_prompt ev ''flux-api.json'' of
        Inl e \<Rightarrow> Inl e
      | Inr prompt \<Rightarrow>
          (case set_input prompt ''6'' ''text'' (JStr text') of
             Inl e \<Rightarrow> Inl e
           | Inr prompt1 \<Rightarrow>
               if width \<noteq> JNull \<and> height \<noteq> JNull then
                 (case set_input prompt1 ''27'' ''width'' width of
                    Inl e \<Rightarrow> Inl e
                  | Inr prompt2 \<Rightarrow> set_input prompt2 ''27'' ''height'' height)
               else
                 (case set_input prompt1 ''27'' ''width'' (JInt 1024) of
                    Inl e \<Rightarrow> Inl e
                  | Inr prompt2 \<Rightarrow> set_input prompt2 ''27'' ''height'' (JInt 1024))))"

text \<open>The body of \<^verbatim>\<open>img\<close> (lines 87-133).\<close>

definition img_body ::
  "env \<Rightarrow> string \<Rightarrow> string \<Rightarrow> json \<Rightarrow> json \<Rightarrow> event list \<Rightarrow> reply \<times> event list" where
  "img_body ev client_id text' width height tr =
     (case img_prompt ev text' width height of
        Inl e \<Rightarrow> (img_except e, tr)
      | Inr prompt \<Rightarrow>
          (let uri = ws_uri server_address client_id
           in case ws_session ev client_id uri prompt tr of
                (Inl e, tr') \<Rightarrow> (img_except e, tr')
              | (Inr images, tr') \<Rightarrow> (Generated images, tr')))"

text \<open>A call of \<^verbatim>\<open>img\<close> (line 86): an option the user leaves out takes the parameter's
  default, 1024; an option the user gives is an integer.\<close>

definition img ::
  "env \<Rightarrow> string \<Rightarrow> string \<Rightarrow> int option \<Rightarrow> int option \<Rightarrow> event list \<Rightarrow> reply \<times> event list"
  where
  "img ev client_id text' width height tr =
     img_body ev client_id text'
       (JInt (case width of None \<Rightarrow> 1024 | Some w \<Rightarrow> w))
       (JInt (case height of None \<Rightarrow> 1024 | Some h \<Rightarrow> h)) tr"

text \<open>Floating-point arithmetic. A Python float is an IEEE-754 double; a division or
  product of floats returns the double nearest to the exact result, a tie going to the
  even significand. \<open>double_round x\<close> is that double for a rational \<open>x\<close>: the nearest
  multiple of \<open>2 powi (e - 52)\<close>, where \<open>2 powi e \<le> \<bar>x\<bar> < 2 powi (e + 1)\<close>, and below the
  normal range (\<open>\<bar>x\<bar> < 2 powi -1022\<close>) the nearest multiple of \<open>2 powi -1074\<close>, which may be
  zero. The exponent has no upper bound here: a result of \<open>2 ^ 1024\<close> or more stands for
  an overflow, which the operation that can produce one tests.\<close>

definition round_half_even :: "rat \<Rightarrow> int" where
  "round_half_even m =
     (if m - of_int \<lfloor>m\<rfloor> < 1 / 2 then \<lfloor>m\<rfloor>
      else if 1 / 2 < m - of_int \<lfloor>m\<rfloor> then \<lfloor>m\<rfloor> + 1
      else if even \<lfloor>m\<rfloor> then \<lfloor>m\<rfloor> else \<lfloor>m\<rfloor> + 1)"

definition binade :: "rat \<Rightarrow> int" where
  "binade x =
     (let k = bitlen (fst (quotient_of x)) - bitlen (snd (quotient_of x))
      in if 2 powi k \<le> x then k else k - 1)"

definition double_round :: "rat \<Rightarrow> rat" where
  "double_round x =
     (if x = 0 then 0
      else
        (let e = max (binade \<bar>x\<bar>) (- 1022)
         in sgn x * of_int (round_half_even (\<bar>x\<bar> / 2 powi (e - 52))) * 2 powi (e - 52)))"

text \<open>\<^verbatim>\<open>int(x)\<close> on a float truncates towards zero.\<close>

definition py_int :: "rat \<Rightarrow> int" where
  "py_int x = (if 0 \<le> x then \<lfloor>x\<rfloor> else \<lceil>x\<rceil>)"

text \<open>Lines 173-185 of \<^verbatim>\<open>i2i\<close>. The divisions and the product are floating-point
  operations: each returns the double nearest to the exact result, \<open>fl\<close> of it. The
  rounding \<open>fl\<close> is a parameter; the program runs with \<open>double_round\<close>. Line 175 divides
  two integers before the test of line 176: a height of 0 raises \<^verbatim>\<open>ZeroDivisionError\<close>,
  and a quotient that rounds beyond the largest double raises \<^verbatim>\<open>OverflowError\<close>. The two
  float operations of lines 179 and 181 have results below 1920 and cannot overflow.\<close>

definition i2i_size :: "(rat \<Rightarrow> rat) \<Rightarrow> int \<Rightarrow> int \<Rightarrow> error + int \<times> int" where
  "i2i_size fl w h =
     (if h = 0 then Inl ZeroDivisionError
      else if 2 ^ 1024 \<le> \<bar>fl (of_int w / of_int h)\<bar> then Inl OverflowError
      else
        (let aspect = fl (of_int w / of_int h)
         in if w * h > 3686400 then
              (if aspect > 1 then Inr (1920, py_int (fl (1920 / aspect)))
               else Inr (py_int (fl (1920 * aspect)), 1920))
            else Inr (w, h)))"

text \<open>Lines 189-196 of \<^verbatim>\<open>i2i\<close>.\<close>

definition i2i_prompt ::
  "env \<Rightarrow> string \<Rightarrow> string \<Rightarrow> int \<Rightarrow> int \<Rightarrow> json \<Rightarrow> error + json" where
  "i2i_prompt ev text' b64 width height denoise =
     (case load_prompt ev ''i2iflux-base64.json'' of
        Inl e \<Rightarrow> Inl e
      | Inr prompt \<Rightarrow>
          (case set_input prompt ''6'' ''text'' (JStr text') of
             Inl e \<Rightarrow> Inl e
           | Inr prompt1 \<Rightarrow>
               (case set_input prompt1 ''53'' ''image'' (JStr b64) of
                  Inl e \<Rightarrow> Inl e
                | Inr prompt2 \<Rightarrow>
                    (case set_input prompt2 ''51'' ''width'' (JInt width) of
                       Inl e \<Rightarrow> Inl e
                     | Inr prompt3 \<Rightarrow>
                         (case set_input prompt3 ''51'' ''height'' (JInt height) of
                            Inl e \<Rightarrow> Inl e
                          | Inr prompt4 \<Rightarrow> set_input prompt4 ''17'' ''denoise'' denoise)))))"

text \<open>The body of \<^verbatim>\<open>i2i\<close> (lines 163-237); \<open>url\<close> is \<^verbatim>\<open>image.url\<close>.\<close>

definition i2i_body ::
  "env \<Rightarrow> (rat \<Rightarrow> rat) \<Rightarrow> string \<Rightarrow> string \<Rightarrow> string \<Rightarrow> json \<Rightarrow> event list
     \<Rightarrow> reply \<times> event list" where
  "i2i_body ev fl client_id text' url denoise tr =
     (case attachment ev url of
        Inl e \<Rightarrow> (i2i_except e, tr @ [Download url])
      | Inr src \<Rightarrow>
          (case i2i_size fl (width_org src) (height_org src) of
             Inl e \<Rightarrow> (i2i_except e, tr @ [Download url])
           | Inr (width, height) \<Rightarrow>
               (case i2i_prompt ev text' (image_base64 src) width height denoise of
                  Inl e \<Rightarrow> (i2i_except e, tr @ [Download url])
                | Inr prompt \<Rightarrow>
                    (let uri = ws_uri server_address client_id
                     in case ws_session ev client_id uri prompt (tr @ [Download url]) of
                          (Inl e, tr') \<Rightarrow> (i2i_except e, tr')
                        | (Inr images, tr') \<Rightarrow> (Generated images, tr')))))"

text \<open>The default of the parameter \<^verbatim>\<open>denoise\<close> (line 162): the double nearest to 0.7.
  An option the user gives is the number Discord delivers for it, an \<^verbatim>\<open>int\<close> or a
  \<^verbatim>\<open>float\<close>; line 196 stores it as it is.\<close>

definition default_denoise :: rat where
  "default_denoise = 3152519739159347 / 4503599627370496"

definition i2i ::
  "env \<Rightarrow> (rat \<Rightarrow> rat) \<Rightarrow> string \<Rightarrow> string \<Rightarrow> string \<Rightarrow> json option \<Rightarrow> event list
     \<Rightarrow> reply \<times> event list" where
  "i2i ev fl client_id text' url denoise tr =
     i2i_body ev fl client_id text' url
       (case denoise of None \<Rightarrow> JFloat default_denoise | Some d \<Rightarrow> d) tr"

text \<open>Lines 262-265 of \<^verbatim>\<open>des\<close>.\<close>

definition des_prompt :: "env \<Rightarrow> string \<Rightarrow> error + json" where
  "des_prompt ev b64 =
     (case load_prompt ev ''florance_api.json'' of
        Inl e \<Rightarrow> Inl e
      | Inr prompt \<Rightarrow> set_input prompt ''62'' ''image'' (JStr b64))"

text \<open>The body of \<^verbatim>\<open>des\<close> (lines 252-283): one frame is read and decoded, whether it is
  text or binary.\<close>

definition des :: "env \<Rightarrow> string \<Rightarrow> string \<Rightarrow> event list \<Rightarrow> reply \<times> event list" where
  "des ev client_id url tr =
     (case attachment ev url of
        Inl e \<Rightarrow> (img_except e, tr @ [Download url])
      | Inr src \<Rightarrow>
          (case des_prompt ev (image_base64 src) of
             Inl e \<Rightarrow> (img_except e, tr @ [Download url])
           | Inr prompt \<Rightarrow>
               (let uri = ws_uri server_address client_id
                in case ws_frames ev uri of
                     Inl e \<Rightarrow> (img_except e, tr @ [Download url, WsConnect uri])
                   | Inr ws \<Rightarrow>
                       (let tr' = tr @ [Download url, WsConnect uri,
                                        WsSend (json_dumps prompt), WsRecv]
                        in case ws of
                             [] \<Rightarrow> (img_except ConnectionClosed, tr')
                           | response # rest \<Rightarrow>
                               (case json_loads
                                       (case response of TextFrame c \<Rightarrow> c
                                                       | BinaryFrame c \<Rightarrow> c) of
                                  Inl e \<Rightarrow> (img_except e, tr')
                                | Inr response_data \<Rightarrow>
                                    (case response_data of
                                       JObj kvs \<Rightarrow> (Sent (json_dumps response_data), tr')
                                     | _ \<Rightarrow> (SentValue response_data, tr')))))))"

text \<open>\<^verbatim>\<open>d.get(key, default)\<close>: only a dictionary has the method.\<close>

fun py_get :: "json \<Rightarrow> string \<Rightarrow> json \<Rightarrow> error + json" where
  "py_get (JObj kvs) k d = Inr (case map_of kvs k of None \<Rightarrow> d | Some v \<Rightarrow> v)"
| "py_get obj k d = Inl AttributeError"

definition sorry_message :: string where
  "sorry_message = ''Sorry, I could not process your request.''"

text \<open>Lines 285-303. Every failure of the request, of its status and of decoding the
  answer is a \<^verbatim>\<open>RequestException\<close> and yields the apology; an answer of the wrong
  shape raises \<^verbatim>\<open>AttributeError\<close>, which the function does not catch.\<close>

definition get_ollama_response ::
  "env \<Rightarrow> string \<Rightarrow> event list \<Rightarrow> (error + json) \<times> event list" where
  "get_ollama_response ev query tr =
     (let data = JObj [(''model'', JStr ''gemma2:27b''),
                       (''messages'', JArr [JObj [(''role'', JStr ''user''),
                                                  (''content'', JStr query)]]),
                       (''stream'', JBool False)];
          tr' = tr @ [OllamaChat data]
      in case ollama_response ev data of
           Inl e \<Rightarrow> (Inr (JStr sorry_message), tr')
         | Inr body \<Rightarrow>
             (case json_loads body of
                Inl e \<Rightarrow> (Inr (JStr sorry_message), tr')
              | Inr answer \<Rightarrow>
                  (case py_get answer ''message'' (JObj []) of
                     Inl e \<Rightarrow> (Inl e, tr')
                   | Inr message \<Rightarrow> (py_get message ''content'' (JStr sorry_message), tr'))))"

text \<open>Lines 57-60; \<^verbatim>\<open>gem\<close> has no \<^verbatim>\<open>except\<close> clause, so an exception leaves the
  command without a reply.\<close>

definition gem :: "env \<Rightarrow> string \<Rightarrow> event list \<Rightarrow> (error + reply) \<times> event list" where
  "gem ev query tr =
     (case get_ollama_response ev query tr of
        (Inl e, tr') \<Rightarrow> (Inl e, tr')
      | (Inr response, tr') \<Rightarrow> (Inr (SentValue response), tr'))"

section \<open>The process\<close>

text \<open>The slash commands a user can invoke, with the options given.\<close>

datatype command =
    Gem string
  | Img string "int option" "int option"
  | I2i string string "json option"
  | Des string

text \<open>Line 24 runs once, when the module is loaded: the process keeps the identifier
  \<^verbatim>\<open>uuid.uuid4()\<close> returned then. A command reads this module-level value; none assigns
  it.\<close>

record process =
  client_id :: string

definition startup :: "string \<Rightarrow> process" where
  "startup uuid4 = \<lparr> client_id = uuid4 \<rparr>"

fun invoke ::
  "env \<Rightarrow> (rat \<Rightarrow> rat) \<Rightarrow> process \<Rightarrow> command \<Rightarrow> event list \<Rightarrow> (error + reply) \<times> event list"
  where
  "invoke ev fl pr (Gem query) tr = gem ev query tr"
| "invoke ev fl pr (Img text' width height) tr =
     (case img ev (client_id pr) text' width height tr of (r, tr') \<Rightarrow> (Inr r, tr'))"
| "invoke ev fl pr (I2i text' url denoise) tr =
     (case i2i ev fl (client_id pr) text' url denoise tr of (r, tr') \<Rightarrow> (Inr r, tr'))"
| "invoke ev fl pr (Des url) tr =
     (case des ev (client_id pr) url tr of (r, tr') \<Rightarrow> (Inr r, tr'))"

section \<open>Notions of the specification\<close>

text \<open>The frame that ends the wait for job \<open>job\<close>, in the words of the specification: a
  text frame that decodes to a message of type \<^verbatim>\<open>executing\<close> whose data has a null \<^verbatim>\<open>node\<close>
  and a \<^verbatim>\<open>prompt_id\<close> equal (Python's \<^verbatim>\<open>==\<close>) to \<open>job\<close>.\<close>

definition is_completion :: "json \<Rightarrow> frame \<Rightarrow> bool" where
  "is_completion job f =
     (case f of
        BinaryFrame b \<Rightarrow> False
      | TextFrame c \<Rightarrow>
          (case json_loads c of
             Inl e \<Rightarrow> False
           | Inr m \<Rightarrow>
               getitem m (JStr ''type'') = Inr (JStr ''executing'')
               \<and> (case getitem m (JStr ''data'') of
                     Inl e \<Rightarrow> False
                   | Inr d \<Rightarrow>
                       getitem d (JStr ''node'') = Inr JNull
                       \<and> (case getitem d (JStr ''prompt_id'') of
                             Inl e \<Rightarrow> False
                           | Inr p \<Rightarrow> py_eq p job))))"

text \<open>A frame the wait must pass over: a binary frame, or a text frame that decodes to a
  message of another type, or of type \<^verbatim>\<open>executing\<close> with a \<^verbatim>\<open>node\<close> that is not null, or
  with a null \<^verbatim>\<open>node\<close> and a \<^verbatim>\<open>prompt_id\<close> different from \<open>job\<close>.\<close>

definition is_decoy :: "json \<Rightarrow> frame \<Rightarrow> bool" where
  "is_decoy job f =
     (case f of
        BinaryFrame b \<Rightarrow> True
      | TextFrame c \<Rightarrow>
          (case json_loads c of
             Inl e \<Rightarrow> False
           | Inr m \<Rightarrow>
               (case getitem m (JStr ''type'') of
                  Inl e \<Rightarrow> False
                | Inr ty \<Rightarrow>
                    if ty \<noteq> JStr ''executing'' then True
                    else
                      (case getitem m (JStr ''data'') of
                         Inl e \<Rightarrow> False
                       | Inr d \<Rightarrow>
                           (case getitem d (JStr ''node'') of
                              Inl e \<Rightarrow> False
                            | Inr nd \<Rightarrow>
                                if nd \<noteq> JNull then True
                                else
                                  (case getitem d (JStr ''prompt_id'') of
                                     Inl e \<Rightarrow> False
                                   | Inr p \<Rightarrow> \<not> py_eq p job))))))"

fun is_text :: "frame \<Rightarrow> bool" where
  "is_text (TextFrame c) = True"
| "is_text (BinaryFrame c) = False"

text \<open>The job graph a command builds before it opens the WebSocket, if it gets that
  far.\<close>

fun job_graph :: "env \<Rightarrow> (rat \<Rightarrow> rat) \<Rightarrow> command \<Rightarrow> json option" where
  "job_graph ev fl (Gem query) = None"
| "job_graph ev fl (Img text' width height) =
     (case img_prompt ev text'
             (JInt (case width of None \<Rightarrow> 1024 | Some w \<Rightarrow> w))
             (JInt (case height of None \<Rightarrow> 1024 | Some h \<Rightarrow> h)) of
        Inl e \<Rightarrow> None
      | Inr g \<Rightarrow> Some g)"
| "job_graph ev fl (I2i text' url denoise) =
     (case attachment ev url of
        Inl e \<Rightarrow> None
      | Inr src \<Rightarrow>
          (case i2i_size fl (width_org src) (height_org src) of
             Inl e \<Rightarrow> None
           | Inr (width, height) \<Rightarrow>
               (case i2i_prompt ev text' (image_base64 src) width height
                       (case denoise of None \<Rightarrow> JFloat default_denoise | Some d \<Rightarrow> d) of
                  Inl e \<Rightarrow> None
                | Inr g \<Rightarrow> Some g)))"
| "job_graph ev fl (Des url) =
     (case attachment ev url of
        Inl e \<Rightarrow> None
      | Inr src \<Rightarrow>
          (case des_prompt ev (image_base64 src) of Inl e \<Rightarrow> None | Inr g \<Rightarrow> Some g))"

text \<open>The text frames a trace sends, the WebSocket URLs it opens and the bodies it posts to
  the submission endpoint.\<close>

fun sent_frame :: "event \<Rightarrow> payload option" where
  "sent_frame (WsSend c) = Some c"
| "sent_frame e = None"

fun opened_url :: "event \<Rightarrow> string option" where
  "opened_url (WsConnect uri) = Some uri"
| "opened_url e = None"

fun posted_body :: "event \<Rightarrow> payload option" where
  "posted_body (Http (PostPrompt body)) = Some body"
| "posted_body e = None"

text \<open>The order of the steps as the code takes them: the attachment is downloaded, the
  WebSocket is opened, the job graph is sent over it, the job is submitted over HTTP,
  frames are received, the history is fetched, the images are fetched.\<close>

fun step_order :: "event \<Rightarrow> nat" where
  "step_order (Download url) = 0"
| "step_order (OllamaChat data) = 0"
| "step_order (WsConnect uri) = 1"
| "step_order (WsSend c) = 2"
| "step_order (Http (PostPrompt body)) = 3"
| "step_order WsRecv = 4"
| "step_order (Http (GetHistory job)) = 5"
| "step_order (Http (GetView filename subfolder folder_type)) = 6"

text \<open>The order of the steps as the specification states it: the HTTP submission comes
  before the WebSocket is opened.\<close>

fun claimed_order :: "event \<Rightarrow> nat" where
  "claimed_order (Download url) = 0"
| "claimed_order (OllamaChat data) = 0"
| "claimed_order (Http (PostPrompt body)) = 1"
| "claimed_order (WsConnect uri) = 2"
| "claimed_order (WsSend c) = 3"
| "claimed_order WsRecv = 4"
| "claimed_order (Http (GetHistory job)) = 5"
| "claimed_order (Http (GetView filename subfolder folder_type)) = 6"

text \<open>An event names the client with identifier \<open>cid\<close>: a WebSocket URL has it as its
  \<^verbatim>\<open>clientId\<close> parameter, a submission body has it under \<^verbatim>\<open>client_id\<close>. The other events
  name no client.\<close>

fun names_client :: "string \<Rightarrow> event \<Rightarrow> bool" where
  "names_client cid (WsConnect uri) = (uri = ws_uri server_address cid)"
| "names_client cid (Http (PostPrompt body)) =
     (case json_loads body of
        Inl e \<Rightarrow> False
      | Inr p \<Rightarrow> getitem p (JStr ''client_id'') = Inr (JStr cid))"
| "names_client cid e = True"

text \<open>A trace \<open>tr'\<close> extends \<open>tr\<close> by events that all satisfy \<open>P\<close>.\<close>

definition only_adds :: "(event \<Rightarrow> bool) \<Rightarrow> event list \<Rightarrow> event list \<Rightarrow> bool" where
  "only_adds P tr tr' = (take (length tr) tr' = tr \<and> list_all P (drop (length tr) tr'))"

fun is_view :: "event \<Rightarrow> bool" where
  "is_view (Http (GetView f s t)) = True"
| "is_view e = False"

fun is_recv :: "event \<Rightarrow> bool" where
  "is_recv WsRecv = True"
| "is_recv e = False"

text \<open>\<^verbatim>\<open>prompt[node]["inputs"][name]\<close>, read.\<close>

definition input_of :: "json \<Rightarrow> string \<Rightarrow> string \<Rightarrow> error + json" where
  "input_of prompt node name =
     (case getitem prompt (JStr node) of
        Inl e \<Rightarrow> Inl e
      | Inr node_def \<Rightarrow>
          (case getitem node_def (JStr ''inputs'') of
             Inl e \<Rightarrow> Inl e
           | Inr inputs \<Rightarrow> getitem inputs (JStr name)))"

text \<open>A submission body whose job graph has the given width and height at node 27.\<close>

fun carries_size :: "int \<Rightarrow> int \<Rightarrow> payload \<Rightarrow> bool" where
  "carries_size w h (Dumps p) =
     (case getitem p (JStr ''prompt'') of
        Inl e \<Rightarrow> False
      | Inr g \<Rightarrow> input_of g ''27'' ''width'' = Inr (JInt w)
                \<and> input_of g ''27'' ''height'' = Inr (JInt h))"
| "carries_size w h (Raw s) = False"
| "carries_size w h (Binary s) = False"



text \<open>The result fetcher as the specification words it: one iteration over the outputs,
  without the outer loop of line 336. It is compared with \<open>collect_outputs\<close> below.\<close>

definition collect_outputs_once ::
  "env \<Rightarrow> json \<Rightarrow> event list \<Rightarrow> (error + (json \<times> payload list) list) \<times> event list" where
  "collect_outputs_once ev prompt_id tr =
     (case get_history ev prompt_id tr of
        (Inl e, tr') \<Rightarrow> (Inl e, tr')
      | (Inr response, tr') \<Rightarrow>
          (case getitem response prompt_id of
             Inl e \<Rightarrow> (Inl e, tr')
           | Inr history \<Rightarrow>
               (case inner_for ev history (None, []) tr' of
                  (Inl e, tr'') \<Rightarrow> (Inl e, tr'')
                | (Inr st, tr'') \<Rightarrow> (Inr (snd st), tr''))))"

section \<open>Example inputs\<close>

text \<open>The frame that reports the end of a job, and frames of other kinds.\<close>

definition completion_frame :: "json \<Rightarrow> frame" where
  "completion_frame job =
     TextFrame (Dumps (JObj [(''type'', JStr ''executing''),
                             (''data'', JObj [(''node'', JNull), (''prompt_id'', job)])]))"

definition node_frame :: "json \<Rightarrow> json \<Rightarrow> frame" where
  "node_frame node job =
     TextFrame (Dumps (JObj [(''type'', JStr ''executing''),
                             (''data'', JObj [(''node'', node), (''prompt_id'', job)])]))"

definition status_frame :: frame where
  "status_frame =
     TextFrame (Dumps (JObj [(''type'', JStr ''status''),
                             (''data'', JObj [(''status'', JObj [])])]))"

definition image_ref :: "string \<Rightarrow> json" where
  "image_ref name =
     JObj [(''filename'', JStr name), (''subfolder'', JStr []), (''type'', JStr ''output'')]"

text \<open>A history record with two nodes: node 9 lists two images, node 10 has no
  \<^verbatim>\<open>images\<close> entry. The second record lists the same nodes in the other order.\<close>

definition two_nodes :: json where
  "two_nodes =
     JObj [(''9'', JObj [(''images'', JArr [image_ref ''a.png'', image_ref ''b.png''])]),
           (''10'', JObj [(''text'', JArr [JStr ''done''])])]"

definition two_nodes_swapped :: json where
  "two_nodes_swapped =
     JObj [(''10'', JObj [(''text'', JArr [JStr ''done''])]),
           (''9'', JObj [(''images'', JArr [image_ref ''a.png'', image_ref ''b.png''])])]"

definition one_node :: json where
  "one_node = JObj [(''9'', JObj [(''images'', JArr [image_ref ''out.png''])])]"

definition example_workflow :: json where
  "example_workflow =
     JObj [(''6'', JObj [(''class_type'', JStr ''CLIPTextEncode''),
                         (''inputs'', JObj [(''text'', JStr [])])]),
           (''17'', JObj [(''inputs'', JObj [(''denoise'', JInt 1)])]),
           (''27'', JObj [(''inputs'', JObj [(''width'', JInt 512), (''height'', JInt 512)])]),
           (''51'', JObj [(''inputs'', JObj [(''width'', JInt 512), (''height'', JInt 512)])]),
           (''53'', JObj [(''inputs'', JObj [(''image'', JStr [])])]),
           (''62'', JObj [(''inputs'', JObj [(''image'', JStr [])])])]"

text \<open>A backend that names every job \<^verbatim>\<open>abc\<close>, records the given outputs for it, serves
  the file name as the bytes of an image and sends the given frames.\<close>

definition example_env :: "json \<Rightarrow> frame list \<Rightarrow> env" where
  "example_env outputs frames =
     \<lparr> http_response = (\<lambda>req. case req of
           PostPrompt body \<Rightarrow> Inr (Dumps (JObj [(''prompt_id'', JStr ''abc''), (''number'', JInt 1)]))
         | GetHistory job \<Rightarrow> Inr (Dumps (JObj [(''abc'', JObj [(''outputs'', outputs)])]))
         | GetView filename subfolder folder_type \<Rightarrow>
             (case filename of JStr name \<Rightarrow> Inr (Raw name) | _ \<Rightarrow> Inl URLError)),
       ws_frames = (\<lambda>uri. Inr frames),
       file_content = (\<lambda>name. Inr (Dumps example_workflow)),
       attachment = (\<lambda>url. Inr \<lparr> width_org = 3840, height_org = 2160, image_base64 = ''aGk='' \<rparr>),
       ollama_response = (\<lambda>data. Inr (Dumps (JObj [(''message'', JObj [(''content'', JStr ''hi'')])]))) \<rparr>"

text \<open>The same backend after it has lost its history (a restart): the history response
  is the empty object.\<close>

definition forgetful_env :: "frame list \<Rightarrow> env" where
  "forgetful_env frames =
     (example_env one_node frames)
       \<lparr> http_response := (\<lambda>req. case req of
            GetHistory job \<Rightarrow> Inr (Dumps (JObj []))
          | _ \<Rightarrow> http_response (example_env one_node frames) req) \<rparr>"



text \<open>The job graph \<^verbatim>\<open>img\<close> builds from \<open>example_workflow\<close> for the text \<^verbatim>\<open>a cat\<close> and
  the default size.\<close>

definition example_graph :: json where
  "example_graph =
     JObj [(''6'', JObj [(''class_type'', JStr ''CLIPTextEncode''),
                         (''inputs'', JObj [(''text'', JStr ''a cat'')])]),
           (''17'', JObj [(''inputs'', JObj [(''denoise'', JInt 1)])]),
           (''27'', JObj [(''inputs'', JObj [(''width'', JInt 1024), (''height'', JInt 1024)])]),
           (''51'', JObj [(''inputs'', JObj [(''width'', JInt 512), (''height'', JInt 512)])]),
           (''53'', JObj [(''inputs'', JObj [(''image'', JStr [])])]),
           (''62'', JObj [(''inputs'', JObj [(''image'', JStr [])])])]"

section \<open>Properties\<close>

subsection \<open>Results of a finished job\<close>

text \<open>C1. The claim: the dictionary \<^verbatim>\<open>get_images\<close> returns has a key for exactly the nodes
  whose output has an \<^verbatim>\<open>images\<close> entry, and a node without one is left out. The code
  does otherwise: for the history record with node 9 (two images) followed by node 10 (no
  \<^verbatim>\<open>images\<close> entry) the result has both keys, node 10 holding the two images of node 9;
  with the two nodes in the other order the call raises \<^verbatim>\<open>UnboundLocalError\<close>.\<close>

theorem get_images_keeps_node_without_images:
  "fst (get_images (example_env two_nodes []) ''cid'' [completion_frame (JStr ''abc'')]
          (JObj []) [])
     = Inr [(JStr ''9'', [Raw ''a.png'', Raw ''b.png'']),
            (JStr ''10'', [Raw ''a.png'', Raw ''b.png''])]
   \<and> fst (get_images (example_env two_nodes_swapped []) ''cid''
            [completion_frame (JStr ''abc'')] (JObj []) [])
     = Inl UnboundLocalError"
  by (simp add: get_images_def submit_def queue_prompt_def json_dumps_def example_env_def
      completion_frame_def collect_outputs_def get_history_def inner_for_def get_image_def
      node_body_def node_images_def
      two_nodes_def two_nodes_swapped_def image_ref_def)

subsection \<open>Waiting for completion\<close>

lemma py_eq_JStr: "py_eq a (JStr s) = (a = JStr s)"
  by (cases a) auto

lemma recv_loop_decoy:
  "is_decoy job f \<Longrightarrow> recv_loop job (f # rest) tr = recv_loop job rest (tr @ [WsRecv])"
  by (cases f) (auto simp: is_decoy_def py_eq_JStr split: sum.splits if_splits)

lemma recv_loop_completion:
  "is_completion job f \<Longrightarrow> recv_loop job (f # rest) tr = (Inr rest, tr @ [WsRecv])"
  by (cases f) (auto simp: is_completion_def py_eq_JStr split: sum.splits if_splits)

lemma recv_loop_decoys:
  "list_all (is_decoy job) decoys \<Longrightarrow>
     recv_loop job (decoys @ frames) tr
       = recv_loop job frames (tr @ replicate (length decoys) WsRecv)"
proof (induction decoys arbitrary: tr)
  case Nil
  then show ?case by simp
next
  case (Cons d decoys)
  then show ?case
    by (simp add: recv_loop_decoy replicate_app_Cons_same del: recv_loop.simps)
qed

lemma recv_loop_step:
  "recv_loop job (f # rest) tr = (Inr unread, tr') \<Longrightarrow>
     (is_completion job f \<and> unread = rest \<and> tr' = tr @ [WsRecv])
     \<or> (is_decoy job f \<and> recv_loop job rest (tr @ [WsRecv]) = (Inr unread, tr'))"
  by (cases f) (auto simp: is_completion_def is_decoy_def py_eq_JStr split: sum.splits if_splits)

lemma recv_loop_returns:
  "recv_loop job frames tr = (Inr unread, tr') \<Longrightarrow>
     \<exists>decoys f. frames = decoys @ f # unread \<and> list_all (is_decoy job) decoys
        \<and> is_completion job f \<and> tr' = tr @ replicate (Suc (length decoys)) WsRecv"
proof (induction frames arbitrary: tr)
  case Nil
  then show ?case by simp
next
  case (Cons f rest)
  from recv_loop_step [OF Cons.prems] show ?case
  proof
    assume "is_completion job f \<and> unread = rest \<and> tr' = tr @ [WsRecv]"
    then show ?thesis by (intro exI [of _ "[]"] exI [of _ f]) simp
  next
    assume a: "is_decoy job f \<and> recv_loop job rest (tr @ [WsRecv]) = (Inr unread, tr')"
    with Cons.IH obtain decoys g where
      "rest = decoys @ g # unread" "list_all (is_decoy job) decoys" "is_completion job g"
      "tr' = (tr @ [WsRecv]) @ replicate (Suc (length decoys)) WsRecv"
      by blast
    with a show ?thesis
      by (intro exI [of _ "f # decoys"] exI [of _ g]) (simp add: replicate_app_Cons_same)
  qed
qed

lemma recv_loop_binary_free:
  "map_sum id (filter is_text) (fst (recv_loop job frames tr))
     = fst (recv_loop job (filter is_text frames) tr')"
proof (induction frames arbitrary: tr tr')
  case Nil
  show ?case by simp
next
  case (Cons f rest)
  show ?case
  proof (cases f)
    case (BinaryFrame b)
    then show ?thesis using Cons.IH by simp
  next
    case (TextFrame c)
    then show ?thesis
      using Cons.IH [of "tr @ [WsRecv]" "tr' @ [WsRecv]"]
      by (auto split: sum.splits)
  qed
qed

text \<open>C2. For every job id and every finite sequence of frames: (1) after any number of
  decoy frames (binary frames, messages of other types, with a non-null node or with a
  different \<^verbatim>\<open>prompt_id\<close>) the loop of lines 324-333 ends at the completion frame, having
  read every decoy and that frame and nothing after it; (2) whenever the loop ends, the
  last frame it read is a completion frame and every frame before it a decoy; (3) binary
  frames change neither whether the loop ends nor the exception it raises: with the binary
  frames removed from the stream the outcome is the same.\<close>

theorem recv_loop_stops_at_completion:
  "(list_all (is_decoy job) decoys \<and> is_completion job f \<longrightarrow>
      recv_loop job (decoys @ f # rest) tr
        = (Inr rest, tr @ replicate (Suc (length decoys)) WsRecv))
   \<and> (recv_loop job frames tr = (Inr unread, tr') \<longrightarrow>
        (\<exists>ds g. frames = ds @ g # unread \<and> list_all (is_decoy job) ds
            \<and> is_completion job g \<and> tr' = tr @ replicate (Suc (length ds)) WsRecv))
   \<and> map_sum id (filter is_text) (fst (recv_loop job frames tr))
        = fst (recv_loop job (filter is_text frames) tr)"
  using recv_loop_decoys [of job decoys "f # rest" tr]
    recv_loop_completion [of job f rest "tr @ replicate (length decoys) WsRecv"]
    recv_loop_returns [of job frames tr unread tr']
    recv_loop_binary_free [of job frames tr tr]
  by (simp add: replicate_append_same del: recv_loop.simps)

theorem recv_loop_stops_at_completion_witness:
  "recv_loop (JStr ''abc'')
     ([completion_frame (JStr ''xyz''), BinaryFrame (Raw ''preview''),
       node_frame (JStr ''5'') (JStr ''abc''), status_frame]
      @ completion_frame (JStr ''abc'') # [status_frame]) []
     = (Inr [status_frame], [WsRecv, WsRecv, WsRecv, WsRecv, WsRecv])"
  using recv_loop_stops_at_completion
    [of "JStr ''abc''"
        "[completion_frame (JStr ''xyz''), BinaryFrame (Raw ''preview''),
          node_frame (JStr ''5'') (JStr ''abc''), status_frame]"
        "completion_frame (JStr ''abc'')" "[status_frame]" "[]", THEN conjunct1]
  by (simp add: is_decoy_def is_completion_def completion_frame_def node_frame_def
      status_frame_def del: recv_loop.simps)

subsection \<open>The redundant outer loop\<close>

text \<open>Assigning the same keys the same values a second time changes nothing.\<close>

lemma dict_set_overwrite: "dict_set k v (dict_set k v' xs) = dict_set k v xs"
  by (induction xs) auto

lemma map_of_dict_set: "map_of (dict_set k v xs) = (map_of xs)(k \<mapsto> v)"
  by (induction xs) auto

lemma dict_set_same: "map_of xs k = Some v \<Longrightarrow> dict_set k v xs = xs"
  by (induction xs) (auto split: if_splits)

lemma dict_set_swap:
  "k \<noteq> k' \<Longrightarrow> map_of xs k \<noteq> None \<Longrightarrow>
     dict_set k' v' (dict_set k v xs) = dict_set k v (dict_set k' v' xs)"
  by (induction xs) auto

lemma assign_all_keeps_key:
  "map_of xs k \<noteq> None \<Longrightarrow> map_of (fold (\<lambda>kv. dict_set (fst kv) (snd kv)) A xs) k \<noteq> None"
  by (induction A arbitrary: xs) (auto simp: map_of_dict_set)

lemma assign_all_other_key:
  "k \<notin> fst ` set A \<Longrightarrow> map_of (fold (\<lambda>kv. dict_set (fst kv) (snd kv)) A xs) k = map_of xs k"
  by (induction A arbitrary: xs) (auto simp: map_of_dict_set)

lemma assign_all_absorbs:
  "k \<in> fst ` set A \<Longrightarrow> map_of xs k \<noteq> None \<Longrightarrow>
     fold (\<lambda>kv. dict_set (fst kv) (snd kv)) A (dict_set k v xs)
       = fold (\<lambda>kv. dict_set (fst kv) (snd kv)) A xs"
proof (induction A arbitrary: xs)
  case Nil
  then show ?case by simp
next
  case (Cons a A)
  show ?case
  proof (cases "fst a = k")
    case True
    then show ?thesis by (simp add: dict_set_overwrite)
  next
    case False
    with Cons.prems have inA: "k \<in> fst ` set A" by auto
    have "dict_set (fst a) (snd a) (dict_set k v xs) = dict_set k v (dict_set (fst a) (snd a) xs)"
      using False Cons.prems(2) by (simp add: dict_set_swap)
    moreover have "map_of (dict_set (fst a) (snd a) xs) k \<noteq> None"
      using Cons.prems(2) by (simp add: map_of_dict_set)
    ultimately show ?thesis
      using Cons.IH [OF inA] by simp
  qed
qed

lemma assign_all_idem:
  "fold (\<lambda>kv. dict_set (fst kv) (snd kv)) A (fold (\<lambda>kv. dict_set (fst kv) (snd kv)) A xs)
     = fold (\<lambda>kv. dict_set (fst kv) (snd kv)) A xs"
proof (induction A arbitrary: xs)
  case Nil
  then show ?case by simp
next
  case (Cons a A)
  let ?X = "dict_set (fst a) (snd a) xs"
  let ?Y = "fold (\<lambda>kv. dict_set (fst kv) (snd kv)) A ?X"
  have key: "map_of ?Y (fst a) \<noteq> None"
    by (rule assign_all_keeps_key) (simp add: map_of_dict_set)
  have "fold (\<lambda>kv. dict_set (fst kv) (snd kv)) A (dict_set (fst a) (snd a) ?Y)
          = fold (\<lambda>kv. dict_set (fst kv) (snd kv)) A ?Y"
  proof (cases "fst a \<in> fst ` set A")
    case True
    then show ?thesis using key by (rule assign_all_absorbs)
  next
    case False
    then have "map_of ?Y (fst a) = map_of ?X (fst a)"
      by (rule assign_all_other_key)
    then have "map_of ?Y (fst a) = Some (snd a)"
      by (simp add: map_of_dict_set)
    then show ?thesis by (simp add: dict_set_same)
  qed
  then show ?case using Cons.IH [of ?X] by simp
qed

lemma image_loop_trace_free:
  "fst (image_loop ev ds acc tr) = fst (image_loop ev ds acc tr')"
  by (induction ds arbitrary: acc tr tr')
     (auto simp: get_image_def Let_def split: sum.splits prod.splits)


lemma node_images_trace_free:
  "fst (node_images ev h n io tr) = fst (node_images ev h n io tr')"
proof -
  have fetched: "fst (case image_loop ev ds [] tr of
                        (Inl e, t) \<Rightarrow> (Inl e, t)
                      | (Inr f, t) \<Rightarrow> (Inr (Some f), t))
                 = fst (case image_loop ev ds [] tr' of
                          (Inl e, t) \<Rightarrow> (Inl e, t)
                        | (Inr f, t) \<Rightarrow> (Inr (Some f), t))" for ds
    using image_loop_trace_free [of ev ds "[]" tr tr']
    by (auto split: prod.splits sum.splits)
  show ?thesis
    by (simp add: node_images_def fetched split: sum.splits)
qed

lemma node_images_from_unbound:
  "fst (node_images ev h n None tr) = Inr (Some f) \<Longrightarrow>
     fst (node_images ev h n io tr) = Inr (Some f)"
  by (auto simp: node_images_def split: sum.splits prod.splits if_splits)

lemma node_body_result:
  "fst (node_body ev h n st tr) =
     (case fst (node_images ev h n (fst st) tr) of
        Inl e \<Rightarrow> Inl e
      | Inr None \<Rightarrow> Inl UnboundLocalError
      | Inr (Some f) \<Rightarrow> Inr (Some f, dict_set n f (snd st)))"
  by (auto simp: node_body_def split: sum.splits prod.splits option.splits)

lemma node_loop_Cons_result:
  "fst (node_loop ev h (n # ns) st tr) =
     (case fst (node_body ev h n st tr) of
        Inl e \<Rightarrow> Inl e
      | Inr st' \<Rightarrow> fst (node_loop ev h ns st' (snd (node_body ev h n st tr))))"
  by (auto split: sum.splits prod.splits)

lemma node_loop_assignments:
  "fst (node_loop ev h ns (io, oi) tr) = Inr (io', oi') \<Longrightarrow>
     \<exists>A. oi' = fold (\<lambda>kv. dict_set (fst kv) (snd kv)) A oi
       \<and> (\<forall>oiX trX. fst (node_loop ev h ns (io, oiX) trX)
                       = Inr (io', fold (\<lambda>kv. dict_set (fst kv) (snd kv)) A oiX))"
proof (induction ns arbitrary: io oi tr)
  case Nil
  then show ?case by (intro exI [of _ "[]"]) simp
next
  case (Cons n ns)
  from Cons.prems obtain f where
    f: "fst (node_images ev h n io tr) = Inr (Some f)"
    and rest: "fst (node_loop ev h ns (Some f, dict_set n f oi)
                      (snd (node_body ev h n (io, oi) tr))) = Inr (io', oi')"
    by (auto simp: node_loop_Cons_result node_body_result simp del: node_loop.simps
        split: sum.splits option.splits)
  from Cons.IH [OF rest] obtain A where
    A1: "oi' = fold (\<lambda>kv. dict_set (fst kv) (snd kv)) A (dict_set n f oi)"
    and A2: "\<And>oiX trX. fst (node_loop ev h ns (Some f, oiX) trX)
                         = Inr (io', fold (\<lambda>kv. dict_set (fst kv) (snd kv)) A oiX)"
    by blast
  have "fst (node_loop ev h (n # ns) (io, oiX) trX)
          = Inr (io', fold (\<lambda>kv. dict_set (fst kv) (snd kv)) ((n, f) # A) oiX)" for oiX trX
  proof -
    have "fst (node_images ev h n io trX) = Inr (Some f)"
      using f node_images_trace_free [of ev h n io trX tr] by simp
    then show ?thesis
      by (simp add: node_loop_Cons_result node_body_result A2 del: node_loop.simps)
  qed
  moreover have "oi' = fold (\<lambda>kv. dict_set (fst kv) (snd kv)) ((n, f) # A) oi"
    using A1 by simp
  ultimately show ?case by blast
qed

lemma node_loop_from_unbound:
  assumes "fst (node_loop ev h (n # ns) (None, oi) tr) = Inr st"
  shows "fst (node_loop ev h (n # ns) (io, oiX) trX)
           = fst (node_loop ev h (n # ns) (None, oiX) trX)"
proof -
  from assms obtain f where "fst (node_images ev h n None tr) = Inr (Some f)"
    by (auto simp: node_loop_Cons_result node_body_result simp del: node_loop.simps
        split: sum.splits option.splits)
  then have f: "fst (node_images ev h n None trX) = Inr (Some f)"
    using node_images_trace_free [of ev h n None trX tr] by simp
  then have f': "fst (node_images ev h n io trX) = Inr (Some f)"
    by (rule node_images_from_unbound)
  have "node_body ev h n (io, oiX) trX = node_body ev h n (None, oiX) trX"
    using f f' by (auto simp: node_body_def node_images_def split: sum.splits prod.splits if_splits)
  then show ?thesis by simp
qed

lemma node_loop_second_pass:
  assumes "fst (node_loop ev h ns (None, []) tr) = Inr st"
  shows "fst (node_loop ev h ns st trX) = Inr st"
proof (cases ns)
  case Nil
  with assms show ?thesis by simp
next
  case (Cons n ns')
  obtain io' oi' where st: "st = (io', oi')" by (cases st)
  from node_loop_assignments [OF assms [unfolded st]] obtain A where
    A1: "oi' = fold (\<lambda>kv. dict_set (fst kv) (snd kv)) A []"
    and A2: "\<And>oiX trX. fst (node_loop ev h ns (None, oiX) trX)
                         = Inr (io', fold (\<lambda>kv. dict_set (fst kv) (snd kv)) A oiX)"
    by blast
  have "fst (node_loop ev h ns (io', oi') trX) = fst (node_loop ev h ns (None, oi') trX)"
    using assms unfolding Cons by (rule node_loop_from_unbound)
  also have "\<dots> = Inr (io', fold (\<lambda>kv. dict_set (fst kv) (snd kv)) A oi')"
    by (rule A2)
  also have "fold (\<lambda>kv. dict_set (fst kv) (snd kv)) A oi' = oi'"
    unfolding A1 by (rule assign_all_idem)
  finally show ?thesis by (simp add: st)
qed

lemma inner_for_second_pass:
  assumes "fst (inner_for ev h (None, []) tr) = Inr st"
  shows "fst (inner_for ev h st trX) = Inr st"
  using assms node_loop_second_pass [of ev h _ tr st trX]
  by (auto simp: inner_for_def split: sum.splits)

lemma outer_loop_fixed:
  assumes "\<And>trX. fst (inner_for ev h st trX) = Inr st"
  shows "fst (outer_loop ev h obs st tr) = Inr st"
proof (induction obs arbitrary: tr)
  case Nil
  show ?case by simp
next
  case (Cons ob obs)
  obtain r tr' where r: "inner_for ev h st tr = (r, tr')" by (cases "inner_for ev h st tr")
  with assms [of tr] have "r = Inr st" by simp
  with r Cons.IH [of tr'] show ?case by simp
qed

lemma outer_loop_once:
  assumes "getitem h (JStr ''outputs'') = Inr outputs" and "py_iter outputs = Inr obs"
  shows "fst (outer_loop ev h obs (None, []) tr) = fst (inner_for ev h (None, []) tr)"
proof (cases obs)
  case Nil
  with assms show ?thesis by (simp add: inner_for_def)
next
  case (Cons ob obs')
  obtain r tr' where r: "inner_for ev h (None, []) tr = (r, tr')"
    by (cases "inner_for ev h (None, []) tr")
  show ?thesis
  proof (cases r)
    case (Inl e)
    with r Cons show ?thesis by simp
  next
    case (Inr st)
    with r have "fst (inner_for ev h (None, []) tr) = Inr st" by simp
    then have "\<And>trX. fst (inner_for ev h st trX) = Inr st"
      by (rule inner_for_second_pass)
    then have "fst (outer_loop ev h obs' st tr') = Inr st"
      by (rule outer_loop_fixed)
    with r Inr Cons show ?thesis by simp
  qed
qed

text \<open>C7. For every environment, job id and history, the nested loops of lines 336-344
  return what a single run of the inner loop returns: the same dictionary, in the same
  order, or the same exception. The outer loop only repeats the requests for the images
  (the backend answers a repeated request as it did before).\<close>

theorem outer_loop_redundant:
  "fst (collect_outputs ev job tr) = fst (collect_outputs_once ev job tr)"
proof -
  obtain r tr' where h: "get_history ev job tr = (r, tr')" by (cases "get_history ev job tr")
  show ?thesis
  proof (cases r)
    case (Inl e)
    with h show ?thesis by (simp add: collect_outputs_def collect_outputs_once_def)
  next
    case (Inr response)
    show ?thesis
    proof (cases "getitem response job")
      case (Inl e)
      with h Inr show ?thesis by (simp add: collect_outputs_def collect_outputs_once_def)
    next
      case hist: (Inr history)
      show ?thesis
      proof (cases "getitem history (JStr ''outputs'')")
        case (Inl e)
        with h Inr hist show ?thesis
          by (simp add: collect_outputs_def collect_outputs_once_def inner_for_def)
      next
        case outs: (Inr outputs)
        show ?thesis
        proof (cases "py_iter outputs")
          case (Inl e)
          with h Inr hist outs show ?thesis
            by (simp add: collect_outputs_def collect_outputs_once_def inner_for_def)
        next
          case obs: (Inr obs)
          have "fst (outer_loop ev history obs (None, []) tr')
                  = fst (inner_for ev history (None, []) tr')"
            using outs obs by (rule outer_loop_once)
          with h Inr hist outs obs show ?thesis
            by (auto simp: collect_outputs_def collect_outputs_once_def
                split: sum.splits prod.splits)
        qed
      qed
    qed
  qed
qed

subsection \<open>Submission\<close>

text \<open>C6. Whatever the job graph, when the submission endpoint answers every request
  with a JSON object whose \<^verbatim>\<open>prompt_id\<close> is \<open>job\<close>, line 322 yields exactly \<open>job\<close>, and the
  one request made is the POST whose body serialises the object with the job graph under
  \<^verbatim>\<open>prompt\<close> and the client identifier under \<^verbatim>\<open>client_id\<close>.\<close>

theorem submit_returns_prompt_id:
  assumes "\<And>body. \<exists>kvs. http_response ev (PostPrompt body) = Inr (Dumps (JObj kvs))
                          \<and> map_of kvs ''prompt_id'' = Some job"
  shows "submit ev cid prompt tr =
           (Inr job,
            tr @ [Http (PostPrompt (Dumps (JObj [(''prompt'', prompt),
                                                 (''client_id'', JStr cid)])))])"
proof -
  let ?body = "Dumps (JObj [(''prompt'', prompt), (''client_id'', JStr cid)])"
  from assms obtain kvs where
    answer: "http_response ev (PostPrompt ?body) = Inr (Dumps (JObj kvs))"
    and job: "map_of kvs ''prompt_id'' = Some job"
    by blast
  show ?thesis
    by (simp add: submit_def queue_prompt_def json_dumps_def answer job)
qed

theorem submit_returns_prompt_id_witness:
  "submit (example_env one_node []) ''cid'' example_workflow [] =
     (Inr (JStr ''abc''),
      [Http (PostPrompt (Dumps (JObj [(''prompt'', example_workflow),
                                      (''client_id'', JStr ''cid'')])))])"
  using submit_returns_prompt_id
    [of "example_env one_node []" "JStr ''abc''" "''cid''" example_workflow "[]"]
  by (simp add: example_env_def)

subsection \<open>A job missing from the history\<close>

text \<open>C5, as claimed, fails: when the history response has no entry for the job,
  \<^verbatim>\<open>get_images\<close> raises \<^verbatim>\<open>KeyError\<close> (line 335), not a \<^verbatim>\<open>HistoryNotFoundError\<close>, and \<^verbatim>\<open>img\<close>
  answers with the message of its catch-all clause.\<close>

theorem missing_job_not_HistoryNotFoundError:
  "fst (get_images (forgetful_env []) ''cid'' [completion_frame (JStr ''abc'')]
          example_workflow []) = Inl KeyError
   \<and> fst (get_images (forgetful_env []) ''cid'' [completion_frame (JStr ''abc'')]
            example_workflow []) \<noteq> Inl HistoryNotFoundError
   \<and> fst (img (forgetful_env [completion_frame (JStr ''abc'')]) ''cid'' ''a cat'' None None [])
       = Said unexpected_message"
  by (simp add: get_images_def submit_def queue_prompt_def json_dumps_def forgetful_env_def
      example_env_def completion_frame_def collect_outputs_def get_history_def
      img_def img_body_def img_prompt_def load_prompt_def set_input_def example_workflow_def
      ws_session_def one_node_def)

text \<open>C5, amended. For every job id (a string) that is no key of the object the history
  endpoint returns, fetching the results raises \<^verbatim>\<open>KeyError\<close>, which the \<^verbatim>\<open>except\<close> clauses
  of \<^verbatim>\<open>img\<close> and \<^verbatim>\<open>i2i\<close> answer with the message for an unexpected error; the only request
  made is the one for the history, so no image is fetched.\<close>

theorem missing_job_raises_KeyError:
  assumes "http_response ev (GetHistory (JStr job)) = Inr (Dumps (JObj records))"
    and "map_of records job = None"
  shows "collect_outputs ev (JStr job) tr = (Inl KeyError, tr @ [Http (GetHistory (JStr job))])
         \<and> img_except KeyError = Said unexpected_message
         \<and> i2i_except KeyError = Said unexpected_message"
  using assms by (simp add: collect_outputs_def get_history_def)

theorem missing_job_raises_KeyError_witness:
  "collect_outputs (forgetful_env []) (JStr ''abc'') []
     = (Inl KeyError, [Http (GetHistory (JStr ''abc''))])"
  using missing_job_raises_KeyError [of "forgetful_env []" "''abc''" "[]" "[]"]
  by (simp add: forgetful_env_def)

subsection \<open>The events of an invocation\<close>

lemma only_adds_iff: "only_adds P tr tr' \<longleftrightarrow> (\<exists>es. tr' = tr @ es \<and> list_all P es)"
  unfolding only_adds_def
  by (metis append_eq_conv_conj)

lemma only_adds_refl: "only_adds P tr tr"
  by (simp add: only_adds_def)

lemma only_adds_snoc: "P e \<Longrightarrow> only_adds P tr (tr @ [e])"
  by (simp add: only_adds_def)

lemma only_adds_trans: "only_adds P a b \<Longrightarrow> only_adds P b c \<Longrightarrow> only_adds P a c"
  by (auto simp: only_adds_iff)

lemma only_adds_after: "P e \<Longrightarrow> only_adds P (tr @ [e]) tr' \<Longrightarrow> only_adds P tr tr'"
  by (auto simp: only_adds_iff)

lemma only_adds_mono: "only_adds P a b \<Longrightarrow> (\<And>e. P e \<Longrightarrow> Q e) \<Longrightarrow> only_adds Q a b"
  by (auto simp: only_adds_iff list_all_iff)

lemma image_loop_trace:
  "image_loop ev ds acc tr = (r, tr') \<Longrightarrow> only_adds is_view tr tr'"
proof (induction ds arbitrary: acc tr)
  case Nil
  then show ?case by (simp add: only_adds_refl)
next
  case (Cons d ds)
  have fetched: "only_adds is_view tr tr'"
    if "image_loop ev ds acc' (tr @ [Http (GetView f s t)]) = (r, tr')" for acc' f s t
    using Cons.IH [OF that] by (rule only_adds_after [rotated]) simp
  from Cons.prems show ?case
    by (auto simp: get_image_def Let_def only_adds_refl only_adds_snoc fetched
        split: sum.splits prod.splits)
qed

lemma node_images_trace:
  "node_images ev h n io tr = (r, tr') \<Longrightarrow> only_adds is_view tr tr'"
  by (auto simp: node_images_def only_adds_refl split: sum.splits prod.splits if_splits
           dest: image_loop_trace)

lemma node_body_trace:
  "node_body ev h n st tr = (r, tr') \<Longrightarrow> only_adds is_view tr tr'"
  by (auto simp: node_body_def split: sum.splits prod.splits option.splits
           dest: node_images_trace)

lemma node_loop_trace:
  "node_loop ev h ns st tr = (r, tr') \<Longrightarrow> only_adds is_view tr tr'"
  by (induction ns arbitrary: st tr)
     (auto simp: only_adds_refl split: sum.splits prod.splits
           dest: node_body_trace intro: only_adds_trans)

lemma inner_for_trace:
  "inner_for ev h st tr = (r, tr') \<Longrightarrow> only_adds is_view tr tr'"
  by (auto simp: inner_for_def only_adds_refl split: sum.splits dest: node_loop_trace)

lemma outer_loop_trace:
  "outer_loop ev h obs st tr = (r, tr') \<Longrightarrow> only_adds is_view tr tr'"
  by (induction obs arbitrary: st tr)
     (auto simp: only_adds_refl split: sum.splits prod.splits
           dest: inner_for_trace intro: only_adds_trans)

lemma get_history_trace: "snd (get_history ev job tr) = tr @ [Http (GetHistory job)]"
  by (simp add: get_history_def Let_def split: sum.splits)

lemma collect_outputs_trace:
  "collect_outputs ev job tr = (r, tr') \<Longrightarrow>
     only_adds is_view (tr @ [Http (GetHistory job)]) tr'"
  using get_history_trace [of ev job tr]
  by (auto simp: collect_outputs_def only_adds_refl split: sum.splits prod.splits
           dest: outer_loop_trace)

lemma recv_loop_trace:
  "recv_loop job ws tr = (r, tr') \<Longrightarrow> only_adds is_recv (tr @ [WsRecv]) tr'"
proof (induction ws arbitrary: tr)
  case Nil
  then show ?case by (auto simp: only_adds_refl)
next
  case (Cons f ws)
  have "only_adds is_recv (tr @ [WsRecv]) tr'"
    if "recv_loop job ws (tr @ [WsRecv]) = (r, tr')"
    using Cons.IH [OF that] by (auto intro: only_adds_after [rotated])
  with Cons.prems show ?case
    by (cases f) (auto simp: only_adds_refl split: sum.splits if_splits)
qed

lemma submit_trace:
  "snd (submit ev cid p tr)
     = tr @ [Http (PostPrompt (Dumps (JObj [(''prompt'', p), (''client_id'', JStr cid)])))]"
  by (simp add: submit_def queue_prompt_def json_dumps_def Let_def split: sum.splits)


lemma is_recv_order: "is_recv e \<Longrightarrow> step_order e = 4"
  by (cases e) auto

lemma is_view_order: "is_view e \<Longrightarrow> step_order e = 6"
  by (cases e rule: step_order.cases) auto

lemma recv_orders: "list_all is_recv rs \<Longrightarrow> map step_order rs = replicate (length rs) 4"
  by (induction rs) (auto simp: is_recv_order)

lemma view_orders: "list_all is_view vs \<Longrightarrow> map step_order vs = replicate (length vs) 6"
  by (induction vs) (auto simp: is_view_order)

lemma sorted_recvs: "list_all is_recv rs \<Longrightarrow> sorted (map step_order (WsRecv # rs))"
  by (simp add: recv_orders)

lemma sorted_tail:
  "list_all is_recv rs \<Longrightarrow> list_all is_view vs \<Longrightarrow>
     sorted (map step_order (WsRecv # rs @ Http (GetHistory job) # vs))"
  by (auto simp: recv_orders view_orders sorted_append)

lemma get_images_trace:
  assumes "get_images ev cid ws p tr = (r, tr')"
  shows "\<exists>es. tr' = tr @ Http (PostPrompt (Dumps (JObj [(''prompt'', p),
                                                       (''client_id'', JStr cid)]))) # es
            \<and> sorted (map step_order es) \<and> list_all (\<lambda>e. 4 \<le> step_order e) es
            \<and> (isl r \<or> (list_ex (\<lambda>e. step_order e = 4) es
                          \<and> list_ex (\<lambda>e. step_order e = 5) es))"
proof -
  let ?post = "Http (PostPrompt (Dumps (JObj [(''prompt'', p), (''client_id'', JStr cid)])))"
  obtain r1 tr1 where s: "submit ev cid p tr = (r1, tr1)" by (cases "submit ev cid p tr")
  with submit_trace [of ev cid p tr] have tr1: "tr1 = tr @ [?post]" by simp
  show ?thesis
  proof (cases r1)
    case (Inl e)
    with assms s tr1 have "tr' = tr @ ?post # []" "isl r" by (auto simp: get_images_def)
    then show ?thesis by (intro exI [of _ "[]"]) simp
  next
    case job: (Inr job)
    obtain r2 tr2 where l: "recv_loop job ws tr1 = (r2, tr2)" by (cases "recv_loop job ws tr1")
    from recv_loop_trace [OF l] obtain rs where
      tr2: "tr2 = tr1 @ WsRecv # rs" and rs: "list_all is_recv rs"
      by (auto simp: only_adds_iff)
    show ?thesis
    proof (cases r2)
      case (Inl e)
      with assms s job l tr1 tr2 have "tr' = tr @ ?post # (WsRecv # rs)" "isl r"
        by (auto simp: get_images_def)
      moreover have "sorted (map step_order (WsRecv # rs))"
        using rs by (rule sorted_recvs)
      moreover have "list_all (\<lambda>e. 4 \<le> step_order e) (WsRecv # rs)"
        using rs by (auto simp: list_all_iff is_recv_order)
      ultimately show ?thesis by blast
    next
      case (Inr unread)
      with assms s job l have c: "collect_outputs ev job tr2 = (r, tr')"
        by (simp add: get_images_def)
      from collect_outputs_trace [OF c] obtain vs where
        tr': "tr' = tr2 @ Http (GetHistory job) # vs" and vs: "list_all is_view vs"
        by (auto simp: only_adds_iff)
      let ?es = "WsRecv # rs @ Http (GetHistory job) # vs"
      have "tr' = tr @ ?post # ?es" using tr' tr2 tr1 by simp
      moreover have "sorted (map step_order ?es)"
        using rs vs by (rule sorted_tail)
      moreover have "list_all (\<lambda>e. 4 \<le> step_order e) ?es"
        using rs vs by (auto simp: list_all_iff is_recv_order is_view_order)
      moreover have "list_ex (\<lambda>e. step_order e = 4) ?es" "list_ex (\<lambda>e. step_order e = 5) ?es"
        by simp_all
      ultimately show ?thesis by blast
    qed
  qed
qed


lemma ws_session_trace:
  assumes "ws_session ev cid uri p tr = (r, tr')"
  shows "\<exists>es. tr' = tr @ WsConnect uri #
                 (case ws_frames ev uri of
                    Inl e \<Rightarrow> []
                  | Inr ws \<Rightarrow>
                      WsSend (Dumps p)
                      # Http (PostPrompt (Dumps (JObj [(''prompt'', p),
                                                        (''client_id'', JStr cid)]))) # es)
            \<and> sorted (map step_order es) \<and> list_all (\<lambda>e. 4 \<le> step_order e) es
            \<and> (isl r \<or> (list_ex (\<lambda>e. step_order e = 4) es
                          \<and> list_ex (\<lambda>e. step_order e = 5) es))"
proof (cases "ws_frames ev uri")
  case (Inl e)
  with assms have "tr' = tr @ [WsConnect uri]" "isl r" by (auto simp: ws_session_def)
  with Inl show ?thesis by (intro exI [of _ "[]"]) simp
next
  case (Inr ws)
  with assms have
    "get_images ev cid ws p (tr @ [WsConnect uri, WsSend (Dumps p)]) = (r, tr')"
    by (simp add: ws_session_def json_dumps_def)
  from get_images_trace [OF this] Inr show ?thesis by auto
qed

lemma generated_not_except [simp]:
  "img_except e \<noteq> Generated imgs" "i2i_except e \<noteq> Generated imgs"
  by (cases e; simp)+

lemma img_trace:
  "\<exists>es. snd (img ev cid text' w h [])
          = (case job_graph ev fl (Img text' w h) of
               None \<Rightarrow> []
             | Some g \<Rightarrow>
                 WsConnect (ws_uri server_address cid) #
                 (case ws_frames ev (ws_uri server_address cid) of
                    Inl e \<Rightarrow> []
                  | Inr ws \<Rightarrow>
                      WsSend (Dumps g)
                      # Http (PostPrompt (Dumps (JObj [(''prompt'', g),
                                                        (''client_id'', JStr cid)]))) # es))
       \<and> sorted (map step_order es) \<and> list_all (\<lambda>e. 4 \<le> step_order e) es
       \<and> ((\<exists>imgs. fst (img ev cid text' w h []) = Generated imgs) \<longrightarrow>
            list_ex (\<lambda>e. step_order e = 4) es \<and> list_ex (\<lambda>e. step_order e = 5) es
            \<and> job_graph ev fl (Img text' w h) \<noteq> None
            \<and> \<not> isl (ws_frames ev (ws_uri server_address cid)))"
proof -
  let ?U = "ws_uri server_address cid"
  let ?P = "img_prompt ev text' (JInt (case w of None \<Rightarrow> 1024 | Some w \<Rightarrow> w))
              (JInt (case h of None \<Rightarrow> 1024 | Some h \<Rightarrow> h))"
  show ?thesis
  proof (cases ?P)
    case (Inl e)
    then show ?thesis by (intro exI [of _ "[]"]) (simp add: img_def img_body_def)
  next
    case (Inr g)
    obtain r tr' where w: "ws_session ev cid ?U g [] = (r, tr')"
      by (cases "ws_session ev cid ?U g []")
    from ws_session_trace [OF w] obtain es where
      "tr' = [] @ WsConnect ?U #
                 (case ws_frames ev ?U of
                    Inl e \<Rightarrow> []
                  | Inr ws \<Rightarrow>
                      WsSend (Dumps g)
                      # Http (PostPrompt (Dumps (JObj [(''prompt'', g),
                                                        (''client_id'', JStr cid)]))) # es)"
      "sorted (map step_order es)" "list_all (\<lambda>e. 4 \<le> step_order e) es"
      "isl r \<or> (list_ex (\<lambda>e. step_order e = 4) es \<and> list_ex (\<lambda>e. step_order e = 5) es)"
      by blast
    moreover have "\<not> isl (ws_frames ev ?U)" if "\<not> isl r"
      using that w by (auto simp: ws_session_def split: sum.splits)
    ultimately show ?thesis
      using Inr w
      by (intro exI [of _ es]) (auto simp: img_def img_body_def Let_def split: sum.splits)
  qed
qed

lemma i2i_trace:
  "\<exists>es. snd (i2i ev fl cid text' url d [])
          = Download url #
            (case job_graph ev fl (I2i text' url d) of
               None \<Rightarrow> []
             | Some g \<Rightarrow>
                 WsConnect (ws_uri server_address cid) #
                 (case ws_frames ev (ws_uri server_address cid) of
                    Inl e \<Rightarrow> []
                  | Inr ws \<Rightarrow>
                      WsSend (Dumps g)
                      # Http (PostPrompt (Dumps (JObj [(''prompt'', g),
                                                        (''client_id'', JStr cid)]))) # es))
       \<and> sorted (map step_order es) \<and> list_all (\<lambda>e. 4 \<le> step_order e) es
       \<and> ((\<exists>imgs. fst (i2i ev fl cid text' url d []) = Generated imgs) \<longrightarrow>
            list_ex (\<lambda>e. step_order e = 4) es \<and> list_ex (\<lambda>e. step_order e = 5) es
            \<and> job_graph ev fl (I2i text' url d) \<noteq> None
            \<and> \<not> isl (ws_frames ev (ws_uri server_address cid)))"
proof -
  let ?U = "ws_uri server_address cid"
  show ?thesis
  proof (cases "job_graph ev fl (I2i text' url d)")
    case None
    then show ?thesis
      by (intro exI [of _ "[]"])
         (auto simp: i2i_def i2i_body_def split: sum.splits prod.splits)
  next
    case (Some g)
    obtain r tr' where w: "ws_session ev cid ?U g [Download url] = (r, tr')"
      by (cases "ws_session ev cid ?U g [Download url]")
    from ws_session_trace [OF w] obtain es where
      "tr' = [Download url] @ WsConnect ?U #
                 (case ws_frames ev ?U of
                    Inl e \<Rightarrow> []
                  | Inr ws \<Rightarrow>
                      WsSend (Dumps g)
                      # Http (PostPrompt (Dumps (JObj [(''prompt'', g),
                                                        (''client_id'', JStr cid)]))) # es)"
      "sorted (map step_order es)" "list_all (\<lambda>e. 4 \<le> step_order e) es"
      "isl r \<or> (list_ex (\<lambda>e. step_order e = 4) es \<and> list_ex (\<lambda>e. step_order e = 5) es)"
      by blast
    moreover have "\<not> isl (ws_frames ev ?U)" if "\<not> isl r"
      using that w by (auto simp: ws_session_def split: sum.splits)
    ultimately show ?thesis
      using Some w
      by (intro exI [of _ es])
         (auto simp: i2i_def i2i_body_def Let_def split: sum.splits prod.splits)
  qed
qed

lemma des_trace:
  "snd (des ev cid url [])
     = Download url #
       (case job_graph ev fl (Des url) of
          None \<Rightarrow> []
        | Some g \<Rightarrow>
            WsConnect (ws_uri server_address cid) #
            (case ws_frames ev (ws_uri server_address cid) of
               Inl e \<Rightarrow> []
             | Inr ws \<Rightarrow> [WsSend (Dumps g), WsRecv]))"
  by (auto simp: des_def Let_def json_dumps_def split: sum.splits list.splits json.splits)

lemma des_not_generated: "fst (des ev cid url tr) \<noteq> Generated imgs"
  by (auto simp: des_def Let_def split: sum.splits list.splits json.splits)

lemma gem_trace: "\<exists>data. snd (gem ev query []) = [OllamaChat data]"
  by (auto simp: gem_def get_ollama_response_def Let_def split: sum.splits prod.splits)

lemma gem_not_generated: "fst (gem ev query tr) \<noteq> Inr (Generated imgs)"
  by (auto simp: gem_def split: sum.splits prod.splits)


lemma late_events:
  "list_all (\<lambda>e. 4 \<le> step_order e) es \<Longrightarrow>
     List.map_filter sent_frame es = [] \<and> List.map_filter opened_url es = []
     \<and> list_all (names_client c) es"
proof (induction es)
  case Nil
  show ?case by (simp add: List.map_filter_simps)
next
  case (Cons e es)
  then show ?case
    by (cases e rule: step_order.cases) (auto simp: List.map_filter_simps)
qed

lemma example_img_trace:
  "snd (img (example_env one_node [completion_frame (JStr ''abc'')]) ''cid'' ''a cat''
          None None [])
     = [WsConnect (ws_uri server_address ''cid''), WsSend (Dumps example_graph),
        Http (PostPrompt (Dumps (JObj [(''prompt'', example_graph),
                                       (''client_id'', JStr ''cid'')]))),
        WsRecv, Http (GetHistory (JStr ''abc'')),
        Http (GetView (JStr ''out.png'') (JStr []) (JStr ''output''))]
   \<and> fst (img (example_env one_node [completion_frame (JStr ''abc'')]) ''cid'' ''a cat''
          None None [])
     = Generated [(JStr ''9'', [Raw ''out.png''])]"
  by (simp add: img_def img_body_def img_prompt_def load_prompt_def set_input_def
      example_env_def example_workflow_def example_graph_def ws_session_def get_images_def
      submit_def queue_prompt_def json_dumps_def completion_frame_def collect_outputs_def
      get_history_def inner_for_def node_body_def node_images_def get_image_def one_node_def
      image_ref_def)

subsection \<open>What goes over the WebSocket\<close>

text \<open>C4, amended. For every invocation of a command, the text frames sent over the
  WebSocket are exactly one, the serialisation of the job graph itself (none when the
  command fails before the connection is open or sends no job graph), and the WebSocket
  is opened at the URL that carries the process's identifier as the parameter
  \<^verbatim>\<open>clientId\<close>. The object with the keys \<^verbatim>\<open>prompt\<close> and \<^verbatim>\<open>client_id\<close> is the body of the
  HTTP submission, not the frame.\<close>

theorem ws_frame_is_job_graph:
  "List.map_filter sent_frame (snd (invoke ev fl pr cmd []))
     = (case job_graph ev fl cmd of
          None \<Rightarrow> []
        | Some g \<Rightarrow>
            (case ws_frames ev (ws_uri server_address (client_id pr)) of
               Inl e \<Rightarrow> []
             | Inr ws \<Rightarrow> [json_dumps g]))
   \<and> List.map_filter opened_url (snd (invoke ev fl pr cmd []))
     = (case job_graph ev fl cmd of
          None \<Rightarrow> []
        | Some g \<Rightarrow> [''ws://192.168.8.219:8188/ws?clientId='' @ client_id pr])"
proof (cases cmd)
  case (Gem query)
  with gem_trace [of ev query] show ?thesis
    by (auto simp: List.map_filter_simps)
next
  case (Img text' w h)
  from img_trace [of ev "client_id pr" text' w h fl] obtain es where
    "snd (img ev (client_id pr) text' w h [])
          = (case job_graph ev fl (Img text' w h) of
               None \<Rightarrow> []
             | Some g \<Rightarrow>
                 WsConnect (ws_uri server_address (client_id pr)) #
                 (case ws_frames ev (ws_uri server_address (client_id pr)) of
                    Inl e \<Rightarrow> []
                  | Inr ws \<Rightarrow>
                      WsSend (Dumps g)
                      # Http (PostPrompt (Dumps (JObj [(''prompt'', g),
                                                        (''client_id'', JStr (client_id pr))]))) # es))"
    "list_all (\<lambda>e. 4 \<le> step_order e) es"
    by blast
  with Img late_events [of es] show ?thesis
    by (auto simp: List.map_filter_simps json_dumps_def ws_uri_def server_address_def
        split: option.splits sum.splits prod.splits)
next
  case (I2i text' url d)
  from i2i_trace [of ev fl "client_id pr" text' url d] obtain es where
    "snd (i2i ev fl (client_id pr) text' url d [])
          = Download url #
            (case job_graph ev fl (I2i text' url d) of
               None \<Rightarrow> []
             | Some g \<Rightarrow>
                 WsConnect (ws_uri server_address (client_id pr)) #
                 (case ws_frames ev (ws_uri server_address (client_id pr)) of
                    Inl e \<Rightarrow> []
                  | Inr ws \<Rightarrow>
                      WsSend (Dumps g)
                      # Http (PostPrompt (Dumps (JObj [(''prompt'', g),
                                                        (''client_id'', JStr (client_id pr))]))) # es))"
    "list_all (\<lambda>e. 4 \<le> step_order e) es"
    by blast
  with I2i late_events [of es] show ?thesis
    by (auto simp: List.map_filter_simps json_dumps_def ws_uri_def server_address_def
        simp del: job_graph.simps split: option.splits sum.splits prod.splits)
next
  case (Des url)
  with des_trace [of ev "client_id pr" url fl] show ?thesis
    by (auto simp: List.map_filter_simps json_dumps_def ws_uri_def server_address_def
        simp del: job_graph.simps split: option.splits sum.splits prod.splits)
qed


text \<open>C4, as claimed, fails: the frame \<^verbatim>\<open>img\<close> sends for the example is the job graph, an
  object that has neither a \<^verbatim>\<open>prompt\<close> nor a \<^verbatim>\<open>client_id\<close> key.\<close>

theorem ws_frame_is_not_prompt_and_client_id:
  "List.map_filter sent_frame
     (snd (img (example_env one_node [completion_frame (JStr ''abc'')]) ''cid'' ''a cat''
             None None []))
     = [Dumps example_graph]
   \<and> getitem example_graph (JStr ''prompt'') = Inl KeyError
   \<and> getitem example_graph (JStr ''client_id'') = Inl KeyError
   \<and> Dumps example_graph
       \<noteq> Dumps (JObj [(''prompt'', example_graph), (''client_id'', JStr ''cid'')])"
  using example_img_trace
  by (simp add: List.map_filter_simps) (simp add: example_graph_def)

theorem ws_frame_is_job_graph_witness:
  "List.map_filter sent_frame
     (snd (invoke (example_env one_node [completion_frame (JStr ''abc'')]) double_round
             (startup ''cid'') (Img ''a cat'' None None) []))
     = [Dumps example_graph]
   \<and> List.map_filter opened_url
     (snd (invoke (example_env one_node [completion_frame (JStr ''abc'')]) double_round
             (startup ''cid'') (Img ''a cat'' None None) []))
     = [''ws://192.168.8.219:8188/ws?clientId=cid'']"
  using ws_frame_is_job_graph
    [of "example_env one_node [completion_frame (JStr ''abc'')]" double_round "startup ''cid''"
        "Img ''a cat'' None None"]
  by (simp add: startup_def img_prompt_def load_prompt_def set_input_def json_dumps_def
      example_env_def example_workflow_def example_graph_def)

subsection \<open>The order of the steps\<close>

text \<open>C3, amended. For every invocation of a command, the events occur in the order:
  the WebSocket is opened, the job graph is sent over it, the job is submitted over HTTP,
  frames are received until the job is complete, the history is fetched, the images are
  fetched; and an invocation whose images were all fetched has taken each of the first five
  steps.\<close>

theorem steps_in_code_order:
  "sorted (map step_order (snd (invoke ev fl pr cmd [])))
   \<and> ((\<exists>imgs. fst (invoke ev fl pr cmd []) = Inr (Generated imgs)) \<longrightarrow>
        list_all (\<lambda>k. list_ex (\<lambda>e. step_order e = k) (snd (invoke ev fl pr cmd [])))
          [1, 2, 3, 4, 5])"
proof (cases cmd)
  case (Gem query)
  have "\<forall>imgs. fst (gem ev query []) \<noteq> Inr (Generated imgs)"
    by (simp add: gem_not_generated)
  with Gem gem_trace [of ev query] show ?thesis
    by auto
next
  case (Img text' w h)
  from img_trace [of ev "client_id pr" text' w h fl] obtain es where
    tr: "snd (img ev (client_id pr) text' w h [])
          = (case job_graph ev fl (Img text' w h) of
               None \<Rightarrow> []
             | Some g \<Rightarrow>
                 WsConnect (ws_uri server_address (client_id pr)) #
                 (case ws_frames ev (ws_uri server_address (client_id pr)) of
                    Inl e \<Rightarrow> []
                  | Inr ws \<Rightarrow>
                      WsSend (Dumps g)
                      # Http (PostPrompt (Dumps (JObj [(''prompt'', g),
                                                        (''client_id'', JStr (client_id pr))]))) # es))"
    and es: "sorted (map step_order es)" "list_all (\<lambda>e. 4 \<le> step_order e) es"
    and ok: "(\<exists>imgs. fst (img ev (client_id pr) text' w h []) = Generated imgs) \<longrightarrow>
            list_ex (\<lambda>e. step_order e = 4) es \<and> list_ex (\<lambda>e. step_order e = 5) es
            \<and> job_graph ev fl (Img text' w h) \<noteq> None
            \<and> \<not> isl (ws_frames ev (ws_uri server_address (client_id pr)))"
    by blast
  have "sorted (map step_order (snd (img ev (client_id pr) text' w h [])))"
    unfolding tr using es
    by (auto simp: list_all_iff simp del: job_graph.simps split: option.splits sum.splits)
  moreover have "list_all (\<lambda>k. list_ex (\<lambda>e. step_order e = k)
                                  (snd (img ev (client_id pr) text' w h []))) [1, 2, 3, 4, 5]"
    if "fst (img ev (client_id pr) text' w h []) = Generated imgs" for imgs
    using ok that unfolding tr
    by (auto simp del: job_graph.simps split: option.splits sum.splits)
  ultimately show ?thesis
    using Img by (auto split: prod.splits)
next
  case (I2i text' url d)
  from i2i_trace [of ev fl "client_id pr" text' url d] obtain es where
    tr: "snd (i2i ev fl (client_id pr) text' url d [])
          = Download url #
            (case job_graph ev fl (I2i text' url d) of
               None \<Rightarrow> []
             | Some g \<Rightarrow>
                 WsConnect (ws_uri server_address (client_id pr)) #
                 (case ws_frames ev (ws_uri server_address (client_id pr)) of
                    Inl e \<Rightarrow> []
                  | Inr ws \<Rightarrow>
                      WsSend (Dumps g)
                      # Http (PostPrompt (Dumps (JObj [(''prompt'', g),
                                                        (''client_id'', JStr (client_id pr))]))) # es))"
    and es: "sorted (map step_order es)" "list_all (\<lambda>e. 4 \<le> step_order e) es"
    and ok: "(\<exists>imgs. fst (i2i ev fl (client_id pr) text' url d []) = Generated imgs) \<longrightarrow>
            list_ex (\<lambda>e. step_order e = 4) es \<and> list_ex (\<lambda>e. step_order e = 5) es
            \<and> job_graph ev fl (I2i text' url d) \<noteq> None
            \<and> \<not> isl (ws_frames ev (ws_uri server_address (client_id pr)))"
    by blast
  have "sorted (map step_order (snd (i2i ev fl (client_id pr) text' url d [])))"
    unfolding tr using es
    by (auto simp: list_all_iff simp del: job_graph.simps split: option.splits sum.splits)
  moreover have "list_all (\<lambda>k. list_ex (\<lambda>e. step_order e = k)
                                  (snd (i2i ev fl (client_id pr) text' url d []))) [1, 2, 3, 4, 5]"
    if "fst (i2i ev fl (client_id pr) text' url d []) = Generated imgs" for imgs
    using ok that unfolding tr
    by (auto simp del: job_graph.simps split: option.splits sum.splits)
  ultimately show ?thesis
    using I2i by (auto split: prod.splits)
next
  case (Des url)
  have "sorted (map step_order (snd (des ev (client_id pr) url [])))"
    unfolding des_trace [of ev "client_id pr" url fl]
    by (auto simp del: job_graph.simps split: option.splits sum.splits)
  moreover have "\<forall>imgs. fst (des ev (client_id pr) url []) \<noteq> Generated imgs"
    by (simp add: des_not_generated)
  ultimately show ?thesis
    using Des by (auto split: prod.splits)
qed

theorem steps_in_code_order_witness:
  "sorted (map step_order
     (snd (invoke (example_env one_node [completion_frame (JStr ''abc'')]) double_round
             (startup ''cid'') (Img ''a cat'' None None) [])))
   \<and> list_all (\<lambda>k. list_ex (\<lambda>e. step_order e = k)
        (snd (invoke (example_env one_node [completion_frame (JStr ''abc'')]) double_round
                (startup ''cid'') (Img ''a cat'' None None) []))) [1, 2, 3, 4, 5]
   \<and> fst (invoke (example_env one_node [completion_frame (JStr ''abc'')]) double_round
            (startup ''cid'') (Img ''a cat'' None None) [])
       = Inr (Generated [(JStr ''9'', [Raw ''out.png''])])"
  using steps_in_code_order
    [of "example_env one_node [completion_frame (JStr ''abc'')]" double_round "startup ''cid''"
        "Img ''a cat'' None None"]
    example_img_trace
  by (simp add: startup_def split: prod.splits)

text \<open>C3, as claimed, fails: in the example the WebSocket is opened and the graph sent
  (steps 1 and 2) before the HTTP submission (step 3), so the trace is not in the order the
  claim states.\<close>

theorem submission_not_before_websocket:
  "map step_order
     (snd (img (example_env one_node [completion_frame (JStr ''abc'')]) ''cid'' ''a cat''
             None None []))
     = [1, 2, 3, 4, 5, 6]
   \<and> \<not> sorted (map claimed_order
        (snd (img (example_env one_node [completion_frame (JStr ''abc'')]) ''cid'' ''a cat''
                None None [])))"
  using example_img_trace by simp

lemma img_names_client:
  "list_all (names_client cid) (snd (img ev cid text' w h []))
   \<and> (job_graph ev fl (Img text' w h) \<noteq> None
        \<and> list_all (names_client c) (snd (img ev cid text' w h [])) \<longrightarrow> c = cid)"
proof -
  from img_trace [of ev cid text' w h fl] obtain es where
    tr: "snd (img ev cid text' w h [])
          = (case job_graph ev fl (Img text' w h) of
               None \<Rightarrow> []
             | Some g \<Rightarrow>
                 WsConnect (ws_uri server_address cid) #
                 (case ws_frames ev (ws_uri server_address cid) of
                    Inl e \<Rightarrow> []
                  | Inr ws \<Rightarrow>
                      WsSend (Dumps g)
                      # Http (PostPrompt (Dumps (JObj [(''prompt'', g),
                                                        (''client_id'', JStr cid)]))) # es))"
    and es: "list_all (\<lambda>e. 4 \<le> step_order e) es"
    by blast
  show ?thesis
    unfolding tr using late_events [OF es, of cid]
    by (auto simp: ws_uri_def simp del: job_graph.simps split: option.splits sum.splits)
qed

lemma i2i_names_client:
  "list_all (names_client cid) (snd (i2i ev fl cid text' url d []))
   \<and> (job_graph ev fl (I2i text' url d) \<noteq> None
        \<and> list_all (names_client c) (snd (i2i ev fl cid text' url d [])) \<longrightarrow> c = cid)"
proof -
  from i2i_trace [of ev fl cid text' url d] obtain es where
    tr: "snd (i2i ev fl cid text' url d [])
          = Download url #
            (case job_graph ev fl (I2i text' url d) of
               None \<Rightarrow> []
             | Some g \<Rightarrow>
                 WsConnect (ws_uri server_address cid) #
                 (case ws_frames ev (ws_uri server_address cid) of
                    Inl e \<Rightarrow> []
                  | Inr ws \<Rightarrow>
                      WsSend (Dumps g)
                      # Http (PostPrompt (Dumps (JObj [(''prompt'', g),
                                                        (''client_id'', JStr cid)]))) # es))"
    and es: "list_all (\<lambda>e. 4 \<le> step_order e) es"
    by blast
  show ?thesis
    unfolding tr using late_events [OF es, of cid]
    by (auto simp: ws_uri_def simp del: job_graph.simps split: option.splits sum.splits)
qed

lemma des_names_client:
  "list_all (names_client cid) (snd (des ev cid url []))
   \<and> (job_graph ev fl (Des url) \<noteq> None
        \<and> list_all (names_client c) (snd (des ev cid url [])) \<longrightarrow> c = cid)"
  unfolding des_trace [of ev cid url fl]
  by (auto simp: ws_uri_def simp del: job_graph.simps split: option.splits sum.splits)

lemma invoke_names_client:
  "list_all (names_client (client_id pr)) (snd (invoke ev fl pr cmd []))
   \<and> (job_graph ev fl cmd \<noteq> None
        \<and> list_all (names_client c) (snd (invoke ev fl pr cmd [])) \<longrightarrow> c = client_id pr)"
proof (cases cmd)
  case (Gem query)
  with gem_trace [of ev query] show ?thesis by auto
next
  case (Img text' w h)
  with img_names_client [of "client_id pr" ev text' w h fl c] show ?thesis
    by (auto simp del: job_graph.simps split: prod.splits)
next
  case (I2i text' url d)
  with i2i_names_client [of "client_id pr" ev fl text' url d c] show ?thesis
    by (auto simp del: job_graph.simps split: prod.splits)
next
  case (Des url)
  with des_names_client [of "client_id pr" ev url fl c] show ?thesis
    by (auto simp del: job_graph.simps split: prod.splits)
qed

subsection \<open>The client identifier\<close>

text \<open>C8. In a process, every WebSocket URL and every submission body of every invocation
  names the one identifier of the process, the value line 24 generated at startup; so any
  two invocations, whatever their commands and whatever the backend does, name the same
  identifier, and an invocation that reaches the WebSocket names no other.\<close>

theorem one_client_id:
  "list_all (names_client (client_id pr)) (snd (invoke ev fl pr cmd []))
   \<and> list_all (names_client (client_id pr)) (snd (invoke ev' fl' pr cmd' []))
   \<and> (job_graph ev fl cmd \<noteq> None \<and> list_all (names_client c) (snd (invoke ev fl pr cmd []))
        \<longrightarrow> c = client_id pr)
   \<and> client_id (startup uuid4) = uuid4"
  using invoke_names_client [of pr ev fl cmd c] invoke_names_client [of pr ev' fl' cmd' c]
  by (simp add: startup_def)

theorem one_client_id_witness:
  "list_all (names_client ''cid'')
     (snd (invoke (example_env one_node [completion_frame (JStr ''abc'')]) double_round
             (startup ''cid'') (Img ''a cat'' None None) []))
   \<and> list_all (names_client ''cid'')
     (snd (invoke (example_env two_nodes []) double_round (startup ''cid'') (Des ''u'') []))
   \<and> job_graph (example_env one_node [completion_frame (JStr ''abc'')]) double_round
        (Img ''a cat'' None None) \<noteq> None"
  using one_client_id
    [of "startup ''cid''" "example_env one_node [completion_frame (JStr ''abc'')]" double_round
        "Img ''a cat'' None None" "example_env two_nodes []" double_round "Des ''u''" "''cid''"]
  by (simp add: startup_def img_prompt_def load_prompt_def set_input_def
      example_env_def example_workflow_def)

subsection \<open>The size of the image \<^verbatim>\<open>img\<close> asks for\<close>

lemma map_of_dict_set': "map_of (dict_set k v xs) k' = (if k' = k then Some v else map_of xs k')"
  by (induction xs) auto

lemma set_input_shape:
  assumes "set_input p node name v = Inr p'"
  obtains kvs nd ins where "p = JObj kvs" "map_of kvs node = Some (JObj nd)"
    "map_of nd ''inputs'' = Some (JObj ins)"
    "p' = JObj (dict_set node (JObj (dict_set ''inputs'' (JObj (dict_set name v ins)) nd)) kvs)"
  using assms
  by (cases p; cases "getitem p (JStr node)")
     (auto simp: set_input_def split: sum.splits option.splits elim!: setitem.elims)

lemma set_input_same:
  assumes "set_input p node name v = Inr p'"
  shows "input_of p' node name = Inr v"
  using assms by (rule set_input_shape) (simp add: input_of_def map_of_dict_set')

lemma set_input_other:
  assumes "set_input p node name v = Inr p'" and "node' \<noteq> node \<or> name' \<noteq> name"
  shows "input_of p' node' name' = input_of p node' name'"
  using assms(1)
proof (rule set_input_shape)
  fix kvs nd ins
  assume "p = JObj kvs" "map_of kvs node = Some (JObj nd)"
    "map_of nd ''inputs'' = Some (JObj ins)"
    "p' = JObj (dict_set node (JObj (dict_set ''inputs'' (JObj (dict_set name v ins)) nd)) kvs)"
  with assms(2) show ?thesis
    by (cases "node' = node") (auto simp: input_of_def map_of_dict_set')
qed

lemma img_prompt_size:
  assumes "img_prompt ev text' (JInt a) (JInt b) = Inr g"
  shows "input_of g ''27'' ''width'' = Inr (JInt a) \<and> input_of g ''27'' ''height'' = Inr (JInt b)"
proof -
  from assms obtain p2 where
    w: "set_input p2 ''27'' ''height'' (JInt b) = Inr g"
    and p2: "input_of p2 ''27'' ''width'' = Inr (JInt a)"
    by (auto simp: img_prompt_def split: sum.splits dest: set_input_same)
  from set_input_other [OF w, of "''27''" "''width''"] p2 set_input_same [OF w]
  show ?thesis by simp
qed


lemma late_events_post:
  "list_all (\<lambda>e. 4 \<le> step_order e) es \<Longrightarrow> List.map_filter posted_body es = []"
proof (induction es)
  case Nil
  show ?case by (simp add: List.map_filter_simps)
next
  case (Cons e es)
  then show ?case
    by (cases e rule: step_order.cases) (auto simp: List.map_filter_simps)
qed


text \<open>C10. For every invocation of \<^verbatim>\<open>img\<close>, with each of the two options given or left
  out: the test of line 91 holds, so the job graph is built by lines 92-93 and never by the
  \<^verbatim>\<open>else\<close> branch of lines 95-96; the graph built has at node 27 the width and height the
  caller gave (1024 where the caller gave none); and every body posted to the submission
  endpoint holds a graph with exactly these values.\<close>

theorem img_else_branch_unreachable:
  "img_prompt ev text' (JInt (case w of None \<Rightarrow> 1024 | Some x \<Rightarrow> x))
       (JInt (case h of None \<Rightarrow> 1024 | Some x \<Rightarrow> x))
     = (case load_prompt ev ''flux-api.json'' of
          Inl e \<Rightarrow> Inl e
        | Inr prompt \<Rightarrow>
            (case set_input prompt ''6'' ''text'' (JStr text') of
               Inl e \<Rightarrow> Inl e
             | Inr prompt1 \<Rightarrow>
                 (case set_input prompt1 ''27'' ''width''
                         (JInt (case w of None \<Rightarrow> 1024 | Some x \<Rightarrow> x)) of
                    Inl e \<Rightarrow> Inl e
                  | Inr prompt2 \<Rightarrow>
                      set_input prompt2 ''27'' ''height''
                        (JInt (case h of None \<Rightarrow> 1024 | Some x \<Rightarrow> x)))))
   \<and> (job_graph ev fl (Img text' w h) = Some g \<longrightarrow>
        input_of g ''27'' ''width'' = Inr (JInt (case w of None \<Rightarrow> 1024 | Some x \<Rightarrow> x))
        \<and> input_of g ''27'' ''height'' = Inr (JInt (case h of None \<Rightarrow> 1024 | Some x \<Rightarrow> x)))
   \<and> list_all (carries_size (case w of None \<Rightarrow> 1024 | Some x \<Rightarrow> x)
                              (case h of None \<Rightarrow> 1024 | Some x \<Rightarrow> x))
        (List.map_filter posted_body (snd (img ev cid text' w h [])))"
proof -
  let ?W = "case w of None \<Rightarrow> 1024 | Some x \<Rightarrow> x"
  let ?H = "case h of None \<Rightarrow> 1024 | Some x \<Rightarrow> x"
  have branch: "img_prompt ev text' (JInt ?W) (JInt ?H)
     = (case load_prompt ev ''flux-api.json'' of
          Inl e \<Rightarrow> Inl e
        | Inr prompt \<Rightarrow>
            (case set_input prompt ''6'' ''text'' (JStr text') of
               Inl e \<Rightarrow> Inl e
             | Inr prompt1 \<Rightarrow>
                 (case set_input prompt1 ''27'' ''width'' (JInt ?W) of
                    Inl e \<Rightarrow> Inl e
                  | Inr prompt2 \<Rightarrow> set_input prompt2 ''27'' ''height'' (JInt ?H))))"
    by (simp add: img_prompt_def split: sum.splits)
  have size: "input_of g' ''27'' ''width'' = Inr (JInt ?W)
              \<and> input_of g' ''27'' ''height'' = Inr (JInt ?H)"
    if "job_graph ev fl (Img text' w h) = Some g'" for g'
    using that img_prompt_size [of ev text' ?W ?H g'] by (auto split: sum.splits)
  from img_trace [of ev cid text' w h fl] obtain es where
    tr: "snd (img ev cid text' w h [])
          = (case job_graph ev fl (Img text' w h) of
               None \<Rightarrow> []
             | Some g \<Rightarrow>
                 WsConnect (ws_uri server_address cid) #
                 (case ws_frames ev (ws_uri server_address cid) of
                    Inl e \<Rightarrow> []
                  | Inr ws \<Rightarrow>
                      WsSend (Dumps g)
                      # Http (PostPrompt (Dumps (JObj [(''prompt'', g),
                                                        (''client_id'', JStr cid)]))) # es))"
    and es: "list_all (\<lambda>e. 4 \<le> step_order e) es"
    by blast
  have posted: "list_all (carries_size ?W ?H)
                  (List.map_filter posted_body (snd (img ev cid text' w h [])))"
    unfolding tr using late_events_post [OF es] size
    by (auto simp: List.map_filter_simps simp del: job_graph.simps
        split: option.splits sum.splits)
  from branch size [of g] posted show ?thesis by blast
qed

theorem img_else_branch_unreachable_witness:
  "job_graph (example_env one_node [completion_frame (JStr ''abc'')]) double_round
       (Img ''a cat'' None None) = Some example_graph
   \<and> input_of example_graph ''27'' ''width'' = Inr (JInt 1024)
   \<and> input_of example_graph ''27'' ''height'' = Inr (JInt 1024)"
  using img_else_branch_unreachable
    [of "example_env one_node [completion_frame (JStr ''abc'')]" "''a cat''" None None
        double_round example_graph "''cid''"]
  by (simp add: img_prompt_def load_prompt_def set_input_def example_env_def
      example_workflow_def example_graph_def)

subsection \<open>The size \<^verbatim>\<open>i2i\<close> asks for\<close>




















end
